theory Spec2Isabelle
  imports Main
begin

section \<open>Strings, characters and the two regular expressions\<close>

text \<open>
  A Go \<^verbatim>\<open>string\<close> is a sequence of bytes; it is modelled as a \<^typ>\<open>string\<close>
  (a list of 8-bit characters). Both regular expressions of \<^verbatim>\<open>main\<close> are ASCII only,
  so matching them byte by byte is matching them rune by rune.
\<close>

definition dquote :: char where
  "dquote = CHR 0x22"

text \<open>The class \<^verbatim>\<open>\d\<close> of Go's regexp package: the ASCII digits 0 to 9 only.\<close>

definition isDigit :: "char \<Rightarrow> bool" where
  "isDigit c = (48 \<le> (of_char c :: nat) \<and> (of_char c :: nat) \<le> 57)"

text \<open>
  \<^verbatim>\<open>contractSubjectRegex := regexp.MustCompile(`\(contrato (\d+)\)`)\<close>.
  \<open>contractSubjectRegex_matchAt s\<close> is the match of the expression anchored at the first
  byte of \<open>s\<close>: the literal \<^verbatim>\<open>(contrato \<close>, the longest run of digits (which must not
  be empty), and a closing parenthesis. It returns the whole match and the capture group.
\<close>

definition contractSubjectRegex_matchAt :: "string \<Rightarrow> (string \<times> string) option" where
  "contractSubjectRegex_matchAt s =
     (if take 10 s = ''(contrato '' then
        (let ds = takeWhile isDigit (drop 10 s);
             rest = dropWhile isDigit (drop 10 s)
         in if ds \<noteq> [] \<and> take 1 rest = '')''
            then Some (''(contrato '' @ ds @ '')'', ds)
            else None)
      else None)"

text \<open>
  \<^verbatim>\<open>FindStringSubmatch\<close>: the leftmost match. The result is the empty slice when the
  expression matches nowhere, and otherwise holds the whole match followed by the text
  of the capture group.
\<close>

fun contractSubjectRegex_FindStringSubmatch :: "string \<Rightarrow> string list" where
  "contractSubjectRegex_FindStringSubmatch [] =
     (case contractSubjectRegex_matchAt [] of
        Some (whole, ds) \<Rightarrow> [whole, ds]
      | None \<Rightarrow> [])"
| "contractSubjectRegex_FindStringSubmatch (c # cs) =
     (case contractSubjectRegex_matchAt (c # cs) of
        Some (whole, ds) \<Rightarrow> [whole, ds]
      | None \<Rightarrow> contractSubjectRegex_FindStringSubmatch cs)"

text \<open>
  \<^verbatim>\<open>invoiceFilenameRegex := regexp.MustCompile(`^\d+\.pdf$`)\<close> with \<^verbatim>\<open>MatchString\<close>.
  Without the \<^verbatim>\<open>m\<close> flag, \<^verbatim>\<open>^\<close> and \<^verbatim>\<open>$\<close> match only at the two ends of the text.
\<close>

definition invoiceFilenameRegex_MatchString :: "string \<Rightarrow> bool" where
  "invoiceFilenameRegex_MatchString s =
     (takeWhile isDigit s \<noteq> [] \<and> dropWhile isDigit s = ''.pdf'')"

text \<open>
  The languages of the two expressions, stated without reference to the matchers:
  a contract token with digits \<open>ds\<close> starts at offset \<open>i\<close> of the subject.
\<close>

definition contractTokenAt :: "string \<Rightarrow> nat \<Rightarrow> string \<Rightarrow> bool" where
  "contractTokenAt subject i ds =
     (ds \<noteq> [] \<and> list_all isDigit ds \<and>
      (\<exists>pre post. subject = pre @ ''(contrato '' @ ds @ '')'' @ post \<and> length pre = i))"

section \<open>The alias table and the filename prefix\<close>

record Configuration =
  Contracts :: "string \<rightharpoonup> string"

text \<open>
  Lines 268 to 277 of \<^verbatim>\<open>main\<close>: the prefix is the date and the message id, unless the
  subject carries a contract number.
\<close>

definition filenamePrefix :: "Configuration \<Rightarrow> string \<Rightarrow> string \<Rightarrow> string \<Rightarrow> string" where
  "filenamePrefix configuration date mId subject =
     (let matches = contractSubjectRegex_FindStringSubmatch subject
      in if length matches > 1 then
           (let contract = matches ! 1;
                withContract = date @ ''-edp-'' @ contract
            in case Contracts configuration contract of
                 Some alias \<Rightarrow> withContract @ ''-'' @ alias
               | None \<Rightarrow> withContract)
         else date @ ''-'' @ mId)"

section \<open>The search query\<close>

text \<open>\<^verbatim>\<open>strings.ContainsAny\<close> and \<^verbatim>\<open>strings.Join\<close>.\<close>

definition ContainsAny :: "string \<Rightarrow> string \<Rightarrow> bool" where
  "ContainsAny s chars = list_ex (\<lambda>c. c \<in> set chars) s"

fun Join :: "string list \<Rightarrow> string \<Rightarrow> string" where
  "Join [] sep = []"
| "Join [x] sep = x"
| "Join (x # y # ys) sep = x @ sep @ Join (y # ys) sep"

text \<open>
  \<^verbatim>\<open>encodeQuery\<close>. The argument is the map in the order in which \<^verbatim>\<open>range\<close> yields its
  entries (Go leaves that order unspecified), so the keys of the list are distinct.
  \<open>encodeQuery_loop\<close> is the loop, with the slice \<^verbatim>\<open>queries\<close> as accumulator;
  \<open>encodeEntry\<close> is the string one round appends, and \<open>val\<close> is the variable \<^verbatim>\<open>value\<close>.
\<close>

definition encodeEntry :: "string \<Rightarrow> string \<Rightarrow> string" where
  "encodeEntry key val =
     (if ContainsAny val '' :''
      then key @ '':'' @ [dquote] @ val @ [dquote]
      else key @ '':'' @ val)"

fun encodeQuery_loop :: "(string \<times> string) list \<Rightarrow> string list \<Rightarrow> string list" where
  "encodeQuery_loop [] queries = queries"
| "encodeQuery_loop ((key, val) # params) queries =
     encodeQuery_loop params (queries @ [encodeEntry key val])"

definition encodeQuery :: "(string \<times> string) list \<Rightarrow> string" where
  "encodeQuery params = Join (encodeQuery_loop params []) '' ''"

text \<open>
  The repository has no parser for the query syntax. \<open>parseQuery_spec\<close> is the reader the
  specification's round trip speaks of, written from its words: a field runs up to the
  first colon; a value that opens with a double quote runs up to the next double quote;
  any other value runs up to the next space; pairs are separated by one space.
\<close>

function parseQuery_entries :: "string \<Rightarrow> (string \<times> string) list" where
  "parseQuery_entries s =
     (let key = takeWhile (\<lambda>c. c \<noteq> CHR '':'') s;
          afterColon = drop 1 (dropWhile (\<lambda>c. c \<noteq> CHR '':'') s);
          quoted = (take 1 afterColon = [dquote]);
          val = (if quoted then takeWhile (\<lambda>c. c \<noteq> dquote) (drop 1 afterColon)
                 else takeWhile (\<lambda>c. c \<noteq> CHR '' '') afterColon);
          rest = (if quoted then drop 1 (dropWhile (\<lambda>c. c \<noteq> dquote) (drop 1 afterColon))
                  else dropWhile (\<lambda>c. c \<noteq> CHR '' '') afterColon)
      in if rest = [] then [(key, val)]
         else (key, val) # parseQuery_entries (drop 1 rest))"
  by pat_completeness auto
termination
proof (relation "measure length")
  show "wf (measure length)" by simp
next
  fix s :: string and key afterColon quoted val rest
  assume ac: "afterColon = drop 1 (dropWhile (\<lambda>c. c \<noteq> CHR '':'') s)"
    and r: "rest = (if quoted then drop 1 (dropWhile (\<lambda>c. c \<noteq> dquote) (drop 1 afterColon))
                  else dropWhile (\<lambda>c. c \<noteq> CHR '' '') afterColon)"
    and ne: "rest \<noteq> []"
  have dw: "length (dropWhile P xs) \<le> length xs" for P and xs :: string
    by (rule length_dropWhile_le)
  have "length rest \<le> length afterColon"
  proof (cases quoted)
    case True
    then show ?thesis
      using r dw [of "\<lambda>c. c \<noteq> dquote" "drop 1 afterColon"] by simp
  next
    case False
    then show ?thesis
      using r dw [of "\<lambda>c. c \<noteq> CHR '' ''" afterColon] by simp
  qed
  moreover have "length afterColon \<le> length s"
    using ac dw [of "\<lambda>c. c \<noteq> CHR '':''" s] by simp
  moreover have "length (drop 1 rest) < length rest"
    using ne by (cases rest) auto
  ultimately show "(drop 1 rest, s) \<in> measure length" by simp
qed

declare parseQuery_entries.simps [simp del]

definition parseQuery_spec :: "string \<Rightarrow> (string \<times> string) list" where
  "parseQuery_spec s = (if s = [] then [] else parseQuery_entries s)"

section \<open>Dates\<close>

text \<open>
  Go's integer division truncates toward zero and the remainder takes the sign of the
  dividend. \<^verbatim>\<open>internalDateMs\<close> is an \<^verbatim>\<open>int64\<close>; none of the operations of
  \<^verbatim>\<open>formatDate\<close> can overflow on an \<^verbatim>\<open>int64\<close> argument, so the model computes on
  \<^typ>\<open>int\<close>.
\<close>

definition go_quot :: "int \<Rightarrow> int \<Rightarrow> int" where
  "go_quot a b = sgn a * sgn b * (\<bar>a\<bar> div \<bar>b\<bar>)"

definition go_rem :: "int \<Rightarrow> int \<Rightarrow> int" where
  "go_rem a b = a - b * go_quot a b"

text \<open>
  \<^verbatim>\<open>time.Unix(sec, nsec)\<close>: the nanoseconds are normalised into the range from 0 to
  999999999, carrying into the seconds.
\<close>

definition time_Unix :: "int \<Rightarrow> int \<Rightarrow> int \<times> int" where
  "time_Unix sec nsec =
     (if nsec < 0 \<or> nsec \<ge> 1000000000 then
        (let n = go_quot nsec 1000000000;
             sec1 = sec + n;
             nsec1 = nsec - n * 1000000000
         in if nsec1 < 0 then (sec1 - 1, nsec1 + 1000000000) else (sec1, nsec1))
      else (sec, nsec))"

text \<open>
  The calendar of \<^verbatim>\<open>time.Time\<close>: the proleptic Gregorian date of a day number counted
  from 1970-01-01. Years are cut off in cycles of 400, 100, 4 and 1 years, counted from
  0001-01-01; the month and the day of the month are found by walking the lengths of the
  months of that year.
\<close>

definition isLeap :: "int \<Rightarrow> bool" where
  "isLeap year = (year mod 4 = 0 \<and> (year mod 100 \<noteq> 0 \<or> year mod 400 = 0))"

definition monthLengths :: "int \<Rightarrow> nat list" where
  "monthLengths year =
     [31, if isLeap year then 29 else 28, 31, 30, 31, 30, 31, 31, 30, 31, 30, 31]"

fun monthDay :: "nat list \<Rightarrow> nat \<Rightarrow> nat \<Rightarrow> nat \<times> nat" where
  "monthDay [] month yday = (month, yday + 1)"
| "monthDay [len] month yday = (month, yday + 1)"
| "monthDay (len # lens) month yday =
     (if yday < len then (month, yday + 1) else monthDay lens (month + 1) (yday - len))"

definition yearDay :: "int \<Rightarrow> int \<times> int" where
  "yearDay days =
     (let d = days + 719162;
          n400 = d div 146097;
          d1 = d mod 146097;
          n100 = min 3 (d1 div 36524);
          d2 = d1 - 36524 * n100;
          n4 = d2 div 1461;
          d3 = d2 mod 1461;
          n1 = min 3 (d3 div 365)
      in (400 * n400 + 100 * n100 + 4 * n4 + n1 + 1, d3 - 365 * n1))"

definition civil :: "int \<Rightarrow> int \<times> nat \<times> nat" where
  "civil days =
     (let year = fst (yearDay days);
          yday = snd (yearDay days);
          md = monthDay (monthLengths year) 1 (nat yday)
      in (year, fst md, snd md))"

text \<open>
  \<^verbatim>\<open>appendInt(b, x, width)\<close> of package time: a minus sign for a negative number, then
  the decimal digits, padded with zeros on the left to the width.
\<close>

definition digitChar :: "nat \<Rightarrow> char" where
  "digitChar d = ''0123456789'' ! d"

fun decimal :: "nat \<Rightarrow> string" where
  "decimal n = (if n < 10 then [digitChar n] else decimal (n div 10) @ [digitChar (n mod 10)])"

declare decimal.simps [simp del]

definition appendInt :: "int \<Rightarrow> nat \<Rightarrow> string" where
  "appendInt x width =
     (if x < 0 then ''-'' else []) @
     replicate (width - length (decimal (nat \<bar>x\<bar>))) (CHR ''0'') @ decimal (nat \<bar>x\<bar>)"

text \<open>
  \<^verbatim>\<open>formatDate\<close>. \<^verbatim>\<open>time.Unix\<close> yields a time in the local zone, and \<^verbatim>\<open>Format\<close> prints
  the date in that zone: \<open>zoneOffset\<close> gives the offset of the local zone from UTC, in
  seconds, at a Unix time. The layout \<^verbatim>\<open>2006-01-02\<close> is the year with width 4, the
  month and the day with width 2.
\<close>

definition localDate :: "(int \<Rightarrow> int) \<Rightarrow> int \<Rightarrow> int \<times> nat \<times> nat" where
  "localDate zoneOffset internalDateMs =
     (let t = time_Unix (go_quot internalDateMs 1000) (go_rem internalDateMs 1000 * 1000000);
          sec = fst t
      in civil ((sec + zoneOffset sec) div 86400))"

definition formatDate :: "(int \<Rightarrow> int) \<Rightarrow> int \<Rightarrow> string" where
  "formatDate zoneOffset internalDateMs =
     (case localDate zoneOffset internalDateMs of
        (year, month, day) \<Rightarrow>
          appendInt year 4 @ ''-'' @ appendInt (int month) 2 @ ''-'' @ appendInt (int day) 2)"

text \<open>The shape \<^verbatim>\<open>YYYY-MM-DD\<close>: four digits, a hyphen, two digits, a hyphen, two digits.\<close>

definition isDateShape :: "string \<Rightarrow> bool" where
  "isDateShape s =
     (length s = 10 \<and> list_all isDigit (take 4 s) \<and> take 1 (drop 4 s) = ''-'' \<and>
      list_all isDigit (take 2 (drop 5 s)) \<and> take 1 (drop 7 s) = ''-'' \<and>
      list_all isDigit (drop 8 s))"

section \<open>Errors, results and base64\<close>

text \<open>
  A Go \<^verbatim>\<open>error\<close> is a value: \<open>ErrNotExist\<close> is the error \<^verbatim>\<open>os.IsNotExist\<close> recognises,
  every other error carries its text. A call that can end the process returns a
  \<open>result\<close>: \<open>Fatal\<close> is \<^verbatim>\<open>log.Fatalf\<close> (the message is logged and the process exits),
  \<open>Panic\<close> is a run-time panic, \<open>Return\<close> is a normal return. \<open>NoResponse\<close> marks a
  request to the mailbox provider for which the environment holds no response.
\<close>

datatype error = ErrNotExist | Error string

definition errorText :: "error \<Rightarrow> string" where
  "errorText err = (case err of ErrNotExist \<Rightarrow> ''no such file or directory'' | Error msg \<Rightarrow> msg)"

datatype 'a result = Fatal string | Panic string | NoResponse | Return 'a

text \<open>
  \<^verbatim>\<open>base64.URLEncoding.DecodeString\<close>: the URL alphabet of RFC 4648 with \<^verbatim>\<open>=\<close> padding,
  not strict. The decoder of package encoding/base64 ignores carriage returns and line
  feeds wherever they stand; what remains must be quanta of four characters, of which
  only the last may end in one or two padding characters. On malformed input Go returns
  the bytes decoded so far and an error; both callers drop the bytes, so the model
  returns the error alone.
\<close>

definition decodeMap :: "char \<Rightarrow> nat option" where
  "decodeMap c =
     (let n = (of_char c :: nat)
      in if 65 \<le> n \<and> n \<le> 90 then Some (n - 65)
         else if 97 \<le> n \<and> n \<le> 122 then Some (n - 71)
         else if 48 \<le> n \<and> n \<le> 57 then Some (n + 4)
         else if n = 45 then Some 62
         else if n = 95 then Some 63
         else None)"

definition quantumBytes :: "nat \<Rightarrow> nat \<Rightarrow> nat \<Rightarrow> nat \<Rightarrow> string" where
  "quantumBytes x y z w =
     (let v = x * 262144 + y * 4096 + z * 64 + w
      in [char_of (v div 65536), char_of (v div 256), char_of v])"

fun decodeQuanta :: "string \<Rightarrow> error + string" where
  "decodeQuanta [] = Inr []"
| "decodeQuanta (a # b # c # d # rest) =
     (case decodeMap a of
        None \<Rightarrow> Inl (Error ''illegal base64 data'')
      | Some x \<Rightarrow>
     (case decodeMap b of
        None \<Rightarrow> Inl (Error ''illegal base64 data'')
      | Some y \<Rightarrow>
     (case decodeMap c of
        None \<Rightarrow>
          if c = CHR ''='' \<and> d = CHR ''='' \<and> rest = []
          then Inr (take 1 (quantumBytes x y 0 0))
          else Inl (Error ''illegal base64 data'')
      | Some z \<Rightarrow>
     (case decodeMap d of
        None \<Rightarrow>
          if d = CHR ''='' \<and> rest = []
          then Inr (take 2 (quantumBytes x y z 0))
          else Inl (Error ''illegal base64 data'')
      | Some w \<Rightarrow>
     (case decodeQuanta rest of
        Inl err \<Rightarrow> Inl err
      | Inr out \<Rightarrow> Inr (quantumBytes x y z w @ out))))))"
| "decodeQuanta _ = Inl (Error ''illegal base64 data'')"

definition isNewline :: "char \<Rightarrow> bool" where
  "isNewline c = (c = CHR 0x0A \<or> c = CHR 0x0D)"

definition base64_URLEncoding_DecodeString :: "string \<Rightarrow> error + string" where
  "base64_URLEncoding_DecodeString s = decodeQuanta (filter (\<lambda>c. \<not> isNewline c) s)"

section \<open>The mailbox provider, the file system and the trace of a run\<close>

record Token =
  AccessToken :: string
  TokenType :: string
  RefreshToken :: string
  Expiry :: int

record oauth2_Config =
  ClientID :: string
  ClientSecret :: string
  RedirectURL :: string

record MessagePartBody =
  AttachmentId :: string
  Data :: string

text \<open>
  \<^verbatim>\<open>gmail.MessagePart\<close>: a node of the body structure of a message, with its own nested
  parts. \<^verbatim>\<open>Body\<close> is a pointer in Go; \<open>None\<close> is the nil pointer.
\<close>

datatype MessagePart =
  MessagePart (MimeType: string) (Filename: string) (Headers: "(string \<times> string) list")
    (Body: "MessagePartBody option") (Parts: "MessagePart list")

text \<open>\<^verbatim>\<open>gmail.Message\<close>; the field \<^verbatim>\<open>Id\<close> is named \<open>MessageId\<close> here.\<close>

record Message =
  MessageId :: string
  InternalDate :: int
  Payload :: "MessagePart option"
  Raw :: string

record ListMessagesResponse =
  Messages :: "Message list"
  NextPageToken :: string

text \<open>
  What a run does to the outside world, in order: lines on standard output, lines of the
  logger, the entry into the browser-based authorization flow, the requests to the
  mailbox provider, and the calls of \<^verbatim>\<open>os.WriteFile\<close>.
\<close>

datatype event =
    is_Stdout: Stdout string
  | is_LogPrintf: LogPrintf string
  | is_Authorization: Authorization string
  | is_MessagesList: MessagesList string "string option"
  | is_MessagesGet: MessagesGet string string
  | is_AttachmentsGet: AttachmentsGet string string
  | is_WriteFile: WriteFile string string

record State =
  files :: "string \<rightharpoonup> string"
  trace :: "event list"

text \<open>
  The environment of a run. The file system refuses to open the paths of \<open>unreadable\<close>
  for reading and those of \<open>unwritable\<close> for writing, and a write to an open file of
  \<open>writeFails\<close> fails. \<open>localZone\<close> is the offset of the local time zone. \<open>rangeOrder\<close>
  is the order in which \<^verbatim>\<open>range\<close> walks a map. The YAML and JSON codecs, the outcome of
  the browser-based authorization and the construction of the service are functions of
  the environment. The provider answers \<^verbatim>\<open>Messages.Get\<close> and \<^verbatim>\<open>Attachments.Get\<close> as a
  function of the request; its successive answers to \<^verbatim>\<open>Messages.List\<close> are a list.
\<close>

record Env =
  unreadable :: "string \<Rightarrow> bool"
  unwritable :: "string \<Rightarrow> bool"
  writeFails :: "string \<Rightarrow> bool"
  localZone :: "int \<Rightarrow> int"
  rangeOrder :: "(string \<times> string) list \<Rightarrow> (string \<times> string) list"
  yamlUnmarshal :: "string \<Rightarrow> error + Configuration"
  configFromJSON :: "string \<Rightarrow> error + oauth2_Config"
  jsonDecodeToken :: "string \<Rightarrow> Token \<times> error option"
  jsonEncodeToken :: "Token \<Rightarrow> error + string"
  webAuthorization :: "oauth2_Config \<Rightarrow> error + Token"
  newService :: "Token \<Rightarrow> error option"
  listResponses :: "(error + ListMessagesResponse) list"
  getFull :: "string \<Rightarrow> error + Message"
  getRaw :: "string \<Rightarrow> error + Message"
  getAttachment :: "string \<Rightarrow> string \<Rightarrow> error + MessagePartBody"

definition emit :: "event \<Rightarrow> State \<Rightarrow> State" where
  "emit e st = st\<lparr>trace := trace st @ [e]\<rparr>"

text \<open>
  \<^verbatim>\<open>os.ReadFile\<close> and \<^verbatim>\<open>os.Open\<close> followed by reading the file;
  \<^verbatim>\<open>os.WriteFile\<close>, which creates or truncates the file and then writes.
\<close>

definition os_ReadFile :: "Env \<Rightarrow> State \<Rightarrow> string \<Rightarrow> error + string" where
  "os_ReadFile env st name =
     (case files st name of
        None \<Rightarrow> Inl ErrNotExist
      | Some content \<Rightarrow>
          if unreadable env name then Inl (Error ''permission denied'') else Inr content)"

definition os_WriteFile :: "Env \<Rightarrow> string \<Rightarrow> string \<Rightarrow> State \<Rightarrow> error option \<times> State" where
  "os_WriteFile env name content st =
     (let st1 = emit (WriteFile name content) st
      in if unwritable env name then (Some (Error ''permission denied''), st1)
         else if writeFails env name
         then (Some (Error ''write error''), st1\<lparr>files := (files st1)(name \<mapsto> [])\<rparr>)
         else (None, st1\<lparr>files := (files st1)(name \<mapsto> content)\<rparr>))"

section \<open>Saving attachments and messages\<close>

definition saveAttachment ::
  "Env \<Rightarrow> string \<Rightarrow> MessagePartBody \<Rightarrow> State \<Rightarrow> error option \<times> State" where
  "saveAttachment env filename part st =
     (case base64_URLEncoding_DecodeString (Data part) of
        Inl err \<Rightarrow> (Some (Error (''unable to decode attachment data: '' @ errorText err)), st)
      | Inr content \<Rightarrow>
          (case os_WriteFile env filename content st of
             (Some err, st1) \<Rightarrow>
               (Some (Error (''unable to write attachment file: '' @ errorText err)), st1)
           | (None, st1) \<Rightarrow> (None, st1)))"

definition saveRawMessage ::
  "Env \<Rightarrow> string \<Rightarrow> string \<Rightarrow> State \<Rightarrow> error option \<times> State" where
  "saveRawMessage env filename rawContent st =
     (case base64_URLEncoding_DecodeString rawContent of
        Inl err \<Rightarrow> (Some (Error (''unable to decode message content: '' @ errorText err)), st)
      | Inr decodedContent \<Rightarrow>
          (case os_WriteFile env filename decodedContent st of
             (Some err, st1) \<Rightarrow>
               (Some (Error (''unable to write raw message file: '' @ errorText err)), st1)
           | (None, st1) \<Rightarrow> (None, st1)))"

section \<open>Configuration and credentials\<close>

definition getConfiguration :: "Env \<Rightarrow> State \<Rightarrow> string \<Rightarrow> error + Configuration" where
  "getConfiguration env st filename =
     (case os_ReadFile env st filename of
        Inl err \<Rightarrow>
          if err = ErrNotExist then Inr \<lparr>Contracts = Map.empty\<rparr>
          else Inl (Error (''error reading file: '' @ errorText err))
      | Inr yamlData \<Rightarrow>
          (case yamlUnmarshal env yamlData of
             Inl err \<Rightarrow> Inl (Error (''error unmarshaling YAML: '' @ errorText err))
           | Inr config \<Rightarrow> Inr config))"

text \<open>
  \<^verbatim>\<open>tokenFromFile\<close> returns a token and an error: no token when the file cannot be
  opened, and otherwise whatever the JSON decoder left in the token, with its error.
\<close>

definition tokenFromFile :: "Env \<Rightarrow> State \<Rightarrow> string \<Rightarrow> Token option \<times> error option" where
  "tokenFromFile env st file =
     (case os_ReadFile env st file of
        Inl err \<Rightarrow> (None, Some err)
      | Inr content \<Rightarrow>
          (case jsonDecodeToken env content of (tok, err) \<Rightarrow> (Some tok, err)))"

text \<open>
  \<^verbatim>\<open>saveToken\<close>: the file is opened with \<^verbatim>\<open>O_RDWR|O_CREATE|O_TRUNC\<close>; the result of
  \<^verbatim>\<open>Encode\<close> is not looked at.
\<close>

definition saveToken :: "Env \<Rightarrow> string \<Rightarrow> Token \<Rightarrow> State \<Rightarrow> unit result \<times> State" where
  "saveToken env path token st =
     (let st1 = emit (Stdout (''Saving credential file to: '' @ path @ [CHR 0x0A])) st
      in if unwritable env path
         then (Fatal (''Unable to cache oauth token: permission denied''), st1)
         else
           (let st2 = st1\<lparr>files := (files st1)(path \<mapsto> [])\<rparr>
            in case jsonEncodeToken env token of
                 Inl err \<Rightarrow> (Return (), st2)
               | Inr encoded \<Rightarrow>
                   if writeFails env path then (Return (), st2)
                   else (Return (), st2\<lparr>files := (files st2)(path \<mapsto> encoded)\<rparr>)))"

text \<open>
  \<^verbatim>\<open>getTokenFromWeb\<close>: the loopback listener, the browser and the exchange of the
  authorization code belong to the environment, which gives the outcome of the exchange.
  A flow that the user never completes is outside the model.
\<close>

definition getTokenFromWeb :: "Env \<Rightarrow> oauth2_Config \<Rightarrow> State \<Rightarrow> Token result \<times> State" where
  "getTokenFromWeb env config st =
     (let st1 = emit (Authorization (RedirectURL config)) st
      in case webAuthorization env config of
           Inl err \<Rightarrow> (Fatal (''Unable to retrieve token from web: '' @ errorText err), st1)
         | Inr tok \<Rightarrow> (Return tok, st1))"

text \<open>
  \<^verbatim>\<open>getClient\<close>; the client it returns is given by the token it carries.
  \<^verbatim>\<open>tokenFromFile\<close> never returns a nil token without an error, so the last case
  below is never taken.
\<close>

definition getClient :: "Env \<Rightarrow> oauth2_Config \<Rightarrow> State \<Rightarrow> Token result \<times> State" where
  "getClient env config st =
     (let tokFile = ''token.json'';
          tok = fst (tokenFromFile env st tokFile);
          err = snd (tokenFromFile env st tokFile)
      in if err \<noteq> None then
           (let config1 = config\<lparr>RedirectURL := ''http://localhost:8080/oauth2/callback''\<rparr>
            in case getTokenFromWeb env config1 st of
                 (Return tok1, st1) \<Rightarrow>
                   (case saveToken env tokFile tok1 st1 of
                      (Return u, st2) \<Rightarrow> (Return tok1, st2)
                    | (Fatal msg, st2) \<Rightarrow> (Fatal msg, st2)
                    | (Panic msg, st2) \<Rightarrow> (Panic msg, st2)
                    | (NoResponse, st2) \<Rightarrow> (NoResponse, st2))
               | (Fatal msg, st1) \<Rightarrow> (Fatal msg, st1)
               | (Panic msg, st1) \<Rightarrow> (Panic msg, st1)
               | (NoResponse, st1) \<Rightarrow> (NoResponse, st1))
         else
           (case tok of
              Some tok0 \<Rightarrow> (Return tok0, st)
            | None \<Rightarrow> (Panic ''nil token'', st)))"

section \<open>The scan of the mailbox\<close>

text \<open>\<^verbatim>\<open>%08d\<close> of package fmt, for a number that is not negative.\<close>

definition fmt_08d :: "nat \<Rightarrow> string" where
  "fmt_08d n = replicate (8 - length (decimal n)) (CHR ''0'') @ decimal n"

text \<open>
  The progress line of line 266:
  \<^verbatim>\<open>fmt.Printf("#%08d %s %s %s: %s\n", messageIndex, m.Id, date, from, subject)\<close>.
\<close>

definition progressLine :: "nat \<Rightarrow> string \<Rightarrow> string \<Rightarrow> string \<Rightarrow> string \<Rightarrow> string" where
  "progressLine messageIndex mId date sender subject =
     ''#'' @ fmt_08d messageIndex @ '' '' @ mId @ '' '' @ date @ '' '' @ sender @ '': '' @ subject
       @ [CHR 0x0A]"

text \<open>
  The loop over the headers (lines 257 to 264), on the pair of \<^verbatim>\<open>from\<close> (named
  \<open>sender\<close> here) and \<^verbatim>\<open>subject\<close>: the last header of a name wins, and a header that
  is missing leaves the empty string.
\<close>

fun scanHeaders :: "(string \<times> string) list \<Rightarrow> string \<times> string \<Rightarrow> string \<times> string" where
  "scanHeaders [] (sender, subject) = (sender, subject)"
| "scanHeaders ((name, val) # headers) (sender, subject) =
     scanHeaders headers
       (if name = ''Subject'' then (sender, val)
        else if name = ''From'' then (val, subject)
        else (sender, subject))"

text \<open>
  The body of the loop over the parts (lines 280 to 293). Either way the loop goes on
  with the next part, unless \<^verbatim>\<open>part.Body\<close> is nil where it is dereferenced.
\<close>

definition processPart ::
  "Env \<Rightarrow> string \<Rightarrow> string \<Rightarrow> MessagePart \<Rightarrow> State \<Rightarrow> unit result \<times> State" where
  "processPart env mId prefix part st =
     (if MimeType part = ''application/pdf'' then
        (if invoiceFilenameRegex_MatchString (Filename part) then
           (case Body part of
              None \<Rightarrow> (Panic ''nil pointer dereference'', st)
            | Some body \<Rightarrow>
                (let st1 = emit (AttachmentsGet mId (AttachmentId body)) st
                 in case getAttachment env mId (AttachmentId body) of
                      Inl err \<Rightarrow>
                        (Return (),
                         emit (LogPrintf (''Unable to retrieve message '' @ mId @ '' attachment ''
                           @ AttachmentId body @ '': '' @ errorText err)) st1)
                    | Inr attachMsg \<Rightarrow>
                        (case saveAttachment env (prefix @ ''-'' @ Filename part) attachMsg st1 of
                           (Some err, st2) \<Rightarrow>
                             (Return (),
                              emit (LogPrintf (''Unable to save message '' @ mId @ '' attachment ''
                                @ AttachmentId body @ '': '' @ errorText err)) st2)
                         | (None, st2) \<Rightarrow> (Return (), st2))))
         else (Return (), st))
      else (Return (), st))"

fun processParts ::
  "Env \<Rightarrow> string \<Rightarrow> string \<Rightarrow> MessagePart list \<Rightarrow> State \<Rightarrow> unit result \<times> State" where
  "processParts env mId prefix [] st = (Return (), st)"
| "processParts env mId prefix (part # parts) st =
     (case processPart env mId prefix part st of
        (Return u, st1) \<Rightarrow> processParts env mId prefix parts st1
      | (Fatal msg, st1) \<Rightarrow> (Fatal msg, st1)
      | (Panic msg, st1) \<Rightarrow> (Panic msg, st1)
      | (NoResponse, st1) \<Rightarrow> (NoResponse, st1))"

text \<open>
  The body of the loop over the messages of a page (lines 247 to 307). It returns the
  value of \<^verbatim>\<open>messageIndex\<close> with which the loop goes on; each \<^verbatim>\<open>continue\<close> of the source
  returns it unchanged. \<^verbatim>\<open>messageIndex\<close> starts at 0 and only grows, so it is a natural
  number here.
\<close>

definition processMessage ::
  "Env \<Rightarrow> Configuration \<Rightarrow> nat \<Rightarrow> Message \<Rightarrow> State \<Rightarrow> nat result \<times> State" where
  "processMessage env configuration messageIndex m st =
     (let st1 = emit (MessagesGet (MessageId m) ''full'') st
      in case getFull env (MessageId m) of
           Inl err \<Rightarrow>
             (Return messageIndex,
              emit (LogPrintf (''Unable to retrieve message '' @ MessageId m @ '': ''
                @ errorText err)) st1)
         | Inr msg \<Rightarrow>
             (case Payload msg of
                None \<Rightarrow> (Panic ''nil pointer dereference'', st1)
              | Some payload \<Rightarrow>
                  (let date = formatDate (localZone env) (InternalDate msg);
                       sender = fst (scanHeaders (Headers payload) ([], []));
                       subject = snd (scanHeaders (Headers payload) ([], []));
                       st2 = emit (Stdout (progressLine messageIndex (MessageId m) date sender
                               subject)) st1;
                       prefix = filenamePrefix configuration date (MessageId m) subject
                   in case processParts env (MessageId m) prefix (Parts payload) st2 of
                        (Return u, st3) \<Rightarrow>
                          (let st4 = emit (MessagesGet (MessageId m) ''raw'') st3
                           in case getRaw env (MessageId m) of
                                Inl err \<Rightarrow>
                                  (Return messageIndex,
                                   emit (LogPrintf (''Unable to retrieve raw message ''
                                     @ MessageId m @ '': '' @ errorText err)) st4)
                              | Inr rawMsg \<Rightarrow>
                                  (case saveRawMessage env (prefix @ ''.eml'') (Raw rawMsg) st4 of
                                     (Some err, st5) \<Rightarrow>
                                       (Return (messageIndex + 1),
                                        emit (LogPrintf (''Error saving message '' @ MessageId m
                                          @ '': '' @ errorText err)) st5)
                                   | (None, st5) \<Rightarrow> (Return (messageIndex + 1), st5)))
                      | (Fatal msg, st3) \<Rightarrow> (Fatal msg, st3)
                      | (Panic msg, st3) \<Rightarrow> (Panic msg, st3)
                      | (NoResponse, st3) \<Rightarrow> (NoResponse, st3))))"

fun processMessages ::
  "Env \<Rightarrow> Configuration \<Rightarrow> nat \<Rightarrow> Message list \<Rightarrow> State \<Rightarrow> nat result \<times> State" where
  "processMessages env configuration messageIndex [] st = (Return messageIndex, st)"
| "processMessages env configuration messageIndex (m # ms) st =
     (case processMessage env configuration messageIndex m st of
        (Return messageIndex1, st1) \<Rightarrow> processMessages env configuration messageIndex1 ms st1
      | (Fatal msg, st1) \<Rightarrow> (Fatal msg, st1)
      | (Panic msg, st1) \<Rightarrow> (Panic msg, st1)
      | (NoResponse, st1) \<Rightarrow> (NoResponse, st1))"

text \<open>
  The outer loop (lines 229 to 314), by recursion on the answers the provider still has
  to give to \<^verbatim>\<open>Messages.List\<close>. Each round sends one request, with the page token
  only when it is not empty, and takes the next answer. The result holds the answers
  that were never asked for.
\<close>

fun scanLoop ::
  "Env \<Rightarrow> Configuration \<Rightarrow> string \<Rightarrow> nat \<Rightarrow> string \<Rightarrow> (error + ListMessagesResponse) list
     \<Rightarrow> State \<Rightarrow> unit result \<times> (error + ListMessagesResponse) list \<times> State" where
  "scanLoop env configuration q messageIndex pageToken [] st =
     (NoResponse, [],
      emit (MessagesList q (if pageToken \<noteq> [] then Some pageToken else None)) st)"
| "scanLoop env configuration q messageIndex pageToken (response # later) st =
     (let st1 = emit (MessagesList q (if pageToken \<noteq> [] then Some pageToken else None)) st
      in case response of
           Inl err \<Rightarrow> (Fatal (''Unable to retrieve messages: '' @ errorText err), later, st1)
         | Inr r \<Rightarrow>
             if length (Messages r) = 0 then (Return (), later, st1)
             else
               (case processMessages env configuration messageIndex (Messages r) st1 of
                  (Return messageIndex1, st2) \<Rightarrow>
                    if NextPageToken r = [] then (Return (), later, st2)
                    else scanLoop env configuration q messageIndex1 (NextPageToken r) later st2
                | (Fatal msg, st2) \<Rightarrow> (Fatal msg, later, st2)
                | (Panic msg, st2) \<Rightarrow> (Panic msg, later, st2)
                | (NoResponse, st2) \<Rightarrow> (NoResponse, later, st2)))"

text \<open>\<^verbatim>\<open>main\<close>.\<close>

definition searchParams :: "(string \<times> string) list" where
  "searchParams = [(''from'', ''faturaedp@edp.pt''), (''has'', ''attachment'')]"

definition main :: "Env \<Rightarrow> State \<Rightarrow> unit result \<times> State" where
  "main env st =
     (case getConfiguration env st ''config.yaml'' of
        Inl err \<Rightarrow> (Fatal (''Unable to read the configuration: '' @ errorText err), st)
      | Inr configuration \<Rightarrow>
     (case os_ReadFile env st ''credentials.json'' of
        Inl err \<Rightarrow> (Fatal (''Unable to read client secret file: '' @ errorText err), st)
      | Inr b \<Rightarrow>
     (case configFromJSON env b of
        Inl err \<Rightarrow>
          (Fatal (''Unable to parse client secret file to config: '' @ errorText err), st)
      | Inr config \<Rightarrow>
     (case getClient env config st of
        (Fatal msg, st1) \<Rightarrow> (Fatal msg, st1)
      | (Panic msg, st1) \<Rightarrow> (Panic msg, st1)
      | (NoResponse, st1) \<Rightarrow> (NoResponse, st1)
      | (Return client, st1) \<Rightarrow>
     (case newService env client of
        Some err \<Rightarrow> (Fatal (''Unable to retrieve Gmail client: '' @ errorText err), st1)
      | None \<Rightarrow>
          (let q = encodeQuery (rangeOrder env searchParams);
               scanned = scanLoop env configuration q 0 [] (listResponses env) st1
           in (fst scanned, snd (snd scanned))))))))"

section \<open>Notions used to state the properties of the scan\<close>

text \<open>
  A part is selected when its MIME type is exactly \<^verbatim>\<open>application/pdf\<close> and its filename
  is one or more digits followed by \<^verbatim>\<open>.pdf\<close> and nothing else. \<open>attachmentContent\<close> is
  the decoded content of the attachment of a part, when the provider returns it and it
  decodes.
\<close>

definition selectedPart :: "MessagePart \<Rightarrow> bool" where
  "selectedPart part =
     (MimeType part = ''application/pdf'' \<and>
      (\<exists>ds. ds \<noteq> [] \<and> list_all isDigit ds \<and> Filename part = ds @ ''.pdf''))"

definition attachmentContent :: "Env \<Rightarrow> string \<Rightarrow> MessagePart \<Rightarrow> string option" where
  "attachmentContent env mId part =
     (case Body part of
        None \<Rightarrow> None
      | Some body \<Rightarrow>
          (case getAttachment env mId (AttachmentId body) of
             Inl err \<Rightarrow> None
           | Inr attachMsg \<Rightarrow>
               (case base64_URLEncoding_DecodeString (Data attachMsg) of
                  Inl err \<Rightarrow> None
                | Inr content \<Rightarrow> Some content)))"

text \<open>
  The requests for the attachment of a part and the calls of \<^verbatim>\<open>os.WriteFile\<close> that a
  part of a message gives rise to: none unless the part is selected.
\<close>

definition fetchesOf :: "string \<Rightarrow> MessagePart \<Rightarrow> event list" where
  "fetchesOf mId part =
     (if selectedPart part
      then (case Body part of None \<Rightarrow> [] | Some body \<Rightarrow> [AttachmentsGet mId (AttachmentId body)])
      else [])"

definition writesOf :: "Env \<Rightarrow> string \<Rightarrow> string \<Rightarrow> MessagePart \<Rightarrow> event list" where
  "writesOf env mId prefix part =
     (if selectedPart part
      then (case attachmentContent env mId part of
              None \<Rightarrow> []
            | Some content \<Rightarrow> [WriteFile (prefix @ ''-'' @ Filename part) content])
      else [])"

text \<open>The requests for a message in the format \<^verbatim>\<open>full\<close>, one per message that is processed.\<close>

definition isFullGet :: "event \<Rightarrow> bool" where
  "isFullGet e = (case e of MessagesGet mId fmt \<Rightarrow> fmt = ''full'' | _ \<Rightarrow> False)"

text \<open>
  The answer of the provider for a message does not make the scan panic: either the
  request fails, or the message has a payload and every selected part of it has a body.
\<close>

definition messageOk :: "Env \<Rightarrow> string \<Rightarrow> bool" where
  "messageOk env mId =
     (case getFull env mId of
        Inl err \<Rightarrow> True
      | Inr msg \<Rightarrow>
          (case Payload msg of
             None \<Rightarrow> False
           | Some payload \<Rightarrow>
               list_all (\<lambda>part. selectedPart part \<longrightarrow> Body part \<noteq> None) (Parts payload)))"

text \<open>
  A class of events is silent when it holds no request for an attachment, no call of
  \<^verbatim>\<open>os.WriteFile\<close> and no line of the logger: the loop over the parts adds no event
  of such a class.
\<close>

definition silent :: "(event \<Rightarrow> bool) \<Rightarrow> bool" where
  "silent P = (\<forall>a b. \<not> P (AttachmentsGet a b) \<and> \<not> P (WriteFile a b) \<and> \<not> P (LogPrintf a))"

section \<open>An environment for the examples\<close>

text \<open>
  \<open>quietEnv\<close> is an environment in which the file system refuses nothing, the local zone
  is UTC, the codecs accept every input, the authorization succeeds, and the mailbox
  answers no list request and knows no message. The examples below change single fields
  of it. \<open>emptyState\<close> is a working directory without files, before any event.
\<close>

definition noToken :: Token where
  "noToken = \<lparr>AccessToken = [], TokenType = [], RefreshToken = [], Expiry = 0\<rparr>"

definition quietEnv :: Env where
  "quietEnv =
     \<lparr>unreadable = (\<lambda>name. False),
      unwritable = (\<lambda>name. False),
      writeFails = (\<lambda>name. False),
      localZone = (\<lambda>sec. 0),
      rangeOrder = (\<lambda>entries. entries),
      yamlUnmarshal = (\<lambda>yamlData. Inr \<lparr>Contracts = Map.empty\<rparr>),
      configFromJSON = (\<lambda>b. Inr \<lparr>ClientID = [], ClientSecret = [], RedirectURL = []\<rparr>),
      jsonDecodeToken = (\<lambda>content. (noToken, None)),
      jsonEncodeToken = (\<lambda>tok. Inr ''{}''),
      webAuthorization = (\<lambda>config. Inr noToken),
      newService = (\<lambda>client. None),
      listResponses = [],
      getFull = (\<lambda>mId. Inl (Error ''not found'')),
      getRaw = (\<lambda>mId. Inl (Error ''not found'')),
      getAttachment = (\<lambda>mId attachmentId. Inl (Error ''not found''))\<rparr>"

definition emptyState :: State where
  "emptyState = \<lparr>files = Map.empty, trace = []\<rparr>"

text \<open>
  A PDF part whose filename matches the pattern, a multipart node that holds it as a
  nested part, and a provider that returns the bytes \<^verbatim>\<open>ABC\<close> for every attachment.
\<close>

definition pdfPart :: MessagePart where
  "pdfPart = MessagePart ''application/pdf'' ''187008571923.pdf'' []
     (Some \<lparr>AttachmentId = ''att1'', Data = []\<rparr>) []"

definition mixedPart :: MessagePart where
  "mixedPart = MessagePart ''multipart/mixed'' [] [] None [pdfPart]"

definition pdfEnv :: Env where
  "pdfEnv = quietEnv\<lparr>getAttachment :=
     \<lambda>mId attachmentId. Inr \<lparr>AttachmentId = attachmentId, Data = ''QUJD''\<rparr>\<rparr>"

text \<open>
  \<open>listed\<close> is an entry of a list response (only its id is set). \<open>mailEnv\<close> is a
  provider that returns, for every id, an invoice message without parts, dated
  2024-07-08, and its raw form. In \<open>rawFailEnv\<close> the raw form of the message \<^verbatim>\<open>m1\<close>
  cannot be retrieved.
\<close>

definition listed :: "string \<Rightarrow> Message" where
  "listed mId = \<lparr>MessageId = mId, InternalDate = 0, Payload = None, Raw = []\<rparr>"

definition invoiceMessage :: "string \<Rightarrow> Message" where
  "invoiceMessage mId =
     \<lparr>MessageId = mId, InternalDate = 1720400000000,
      Payload = Some (MessagePart ''multipart/mixed'' []
        [(''From'', ''faturaedp@edp.pt''), (''Subject'', ''Fatura'')] None []),
      Raw = []\<rparr>"

definition mailEnv :: Env where
  "mailEnv = quietEnv
     \<lparr>getFull := \<lambda>mId. Inr (invoiceMessage mId),
      getRaw := \<lambda>mId. Inr ((listed mId)\<lparr>Raw := ''QUJD''\<rparr>)\<rparr>"

definition rawFailEnv :: Env where
  "rawFailEnv = mailEnv
     \<lparr>getRaw := \<lambda>mId. if mId = ''m1'' then Inl (Error ''backend error'')
                     else Inr ((listed mId)\<lparr>Raw := ''QUJD''\<rparr>)\<rparr>"

section \<open>Properties of the regular expressions and of the filename prefix\<close>

lemma not_digit_rparen: "\<not> isDigit CHR '')''"
  by (simp add: isDigit_def)

lemma takeWhile_digits: 
  "list_all isDigit ds \<Longrightarrow> takeWhile isDigit (ds @ CHR '')'' # post) = ds"
  by (induction ds) (simp_all add: not_digit_rparen)

lemma dropWhile_digits: 
  "list_all isDigit ds \<Longrightarrow> dropWhile isDigit (ds @ CHR '')'' # post) = CHR '')'' # post"
  by (induction ds) (simp_all add: not_digit_rparen)

lemma matchAt_token:
  assumes "ds \<noteq> []" "list_all isDigit ds"
  shows "contractSubjectRegex_matchAt (''(contrato '' @ ds @ '')'' @ post) = Some (''(contrato '' @ ds @ '')'', ds)"
  using assms by (simp add: contractSubjectRegex_matchAt_def takeWhile_digits dropWhile_digits)

lemma matchAt_Some:
  assumes "contractSubjectRegex_matchAt s = Some (w, ds)"
  shows "ds \<noteq> [] \<and> list_all isDigit ds \<and> w = ''(contrato '' @ ds @ '')'' \<and> (\<exists>post. s = w @ post)"
proof -
  let ?r = "drop 10 s"
  from assms have p: "take 10 s = ''(contrato ''" 
    and d: "ds = takeWhile isDigit ?r" and ne: "ds \<noteq> []"
    and c: "take 1 (dropWhile isDigit ?r) = '')''" and w: "w = ''(contrato '' @ ds @ '')''"
    by (auto simp: contractSubjectRegex_matchAt_def Let_def split: if_splits)
  have all: "list_all isDigit ds" unfolding d list_all_iff by (auto dest: set_takeWhileD)
  define D where "D = dropWhile isDigit ?r"
  have e1: "take 10 s @ ?r = s" by (rule append_take_drop_id)
  have e2: "takeWhile isDigit ?r @ D = ?r" unfolding D_def by (rule takeWhile_dropWhile_id)
  have e3: "take 1 D @ drop 1 D = D" by (rule append_take_drop_id)
  have "s = take 10 s @ (takeWhile isDigit ?r @ (take 1 D @ drop 1 D))"
    by (simp only: e3 e2 e1)
  then have "s = ''(contrato '' @ ds @ '')'' @ drop 1 D"
    using p d c by (simp only: D_def [symmetric] append_assoc)
  with ne all w show ?thesis by auto
qed

lemma tokenAt_iff:
  "contractTokenAt s i ds \<longleftrightarrow> 
     contractSubjectRegex_matchAt (drop i s) = Some (''(contrato '' @ ds @ '')'', ds) \<and> i \<le> length s"
proof
  assume "contractTokenAt s i ds"
  then obtain pre post where ds: "ds \<noteq> []" "list_all isDigit ds"
    and s: "s = pre @ ''(contrato '' @ ds @ '')'' @ post" and i: "length pre = i"
    by (auto simp: contractTokenAt_def)
  have "drop i s = ''(contrato '' @ ds @ '')'' @ post" using s i by simp
  then show "contractSubjectRegex_matchAt (drop i s) = Some (''(contrato '' @ ds @ '')'', ds) \<and> i \<le> length s"
    using matchAt_token [OF ds, of post] s i by simp
next
  assume a: "contractSubjectRegex_matchAt (drop i s) = Some (''(contrato '' @ ds @ '')'', ds) \<and> i \<le> length s"
  then obtain post where ds: "ds \<noteq> []" "list_all isDigit ds" 
    and d: "drop i s = (''(contrato '' @ ds @ '')'') @ post"
    using matchAt_Some by blast
  have "s = take i s @ drop i s" by simp
  then have "s = take i s @ ''(contrato '' @ ds @ '')'' @ post" using d by simp
  moreover have "length (take i s) = i" using a by simp
  ultimately show "contractTokenAt s i ds" using ds unfolding contractTokenAt_def by blast
qed

lemma find_none:
  "(\<And>i. i \<le> length s \<Longrightarrow> contractSubjectRegex_matchAt (drop i s) = None) \<Longrightarrow> contractSubjectRegex_FindStringSubmatch s = []"
proof (induction s)
  case Nil
  then show ?case using Nil [of 0] by simp
next
  case (Cons c cs)
  have "contractSubjectRegex_matchAt (c # cs) = None" using Cons.prems [of 0] by simp
  moreover have "contractSubjectRegex_FindStringSubmatch cs = []"
  proof (rule Cons.IH)
    fix i assume "i \<le> length cs"
    then show "contractSubjectRegex_matchAt (drop i cs) = None" using Cons.prems [of "Suc i"] by simp
  qed
  ultimately show ?case by simp
qed

lemma find_first:
  "contractSubjectRegex_matchAt (drop i s) = Some (w, ds) \<Longrightarrow> i \<le> length s \<Longrightarrow>
   (\<And>j. j < i \<Longrightarrow> contractSubjectRegex_matchAt (drop j s) = None) \<Longrightarrow>
   contractSubjectRegex_FindStringSubmatch s = [w, ds]"
proof (induction s arbitrary: i)
  case Nil
  then show ?case by simp
next
  case (Cons c cs)
  show ?case
  proof (cases i)
    case 0
    then show ?thesis using Cons.prems(1) by simp
  next
    case (Suc k)
    have "contractSubjectRegex_matchAt (c # cs) = None" using Cons.prems(3) [of 0] Suc by simp
    moreover have "contractSubjectRegex_FindStringSubmatch cs = [w, ds]"
    proof (rule Cons.IH [of k])
      show "contractSubjectRegex_matchAt (drop k cs) = Some (w, ds)" using Cons.prems(1) Suc by simp
      show "k \<le> length cs" using Cons.prems(2) Suc by simp
      fix j assume "j < k"
      then show "contractSubjectRegex_matchAt (drop j cs) = None" using Cons.prems(3) [of "Suc j"] Suc by simp
    qed
    ultimately show ?thesis by simp
  qed
qed

lemma matchAt_None_iff: 
  "i \<le> length s \<Longrightarrow> contractSubjectRegex_matchAt (drop i s) = None \<longleftrightarrow> (\<forall>ds. \<not> contractTokenAt s i ds)"
proof
  assume "i \<le> length s" "contractSubjectRegex_matchAt (drop i s) = None"
  then show "\<forall>ds. \<not> contractTokenAt s i ds" by (simp add: tokenAt_iff)
next
  assume i: "i \<le> length s" and n: "\<forall>ds. \<not> contractTokenAt s i ds"
  show "contractSubjectRegex_matchAt (drop i s) = None"
  proof (cases "contractSubjectRegex_matchAt (drop i s)")
    case None then show ?thesis .
  next
    case (Some p)
    obtain w ds where p: "p = (w, ds)" by (cases p)
    from matchAt_Some [of "drop i s" w ds] Some p have "w = ''(contrato '' @ ds @ '')''" by simp
    with Some p i have "contractTokenAt s i ds" by (simp add: tokenAt_iff)
    with n show ?thesis by blast
  qed
qed


lemma find_cases:
  "contractSubjectRegex_FindStringSubmatch s = [] \<and> (\<forall>i\<le>length s. contractSubjectRegex_matchAt (drop i s) = None)
   \<or> (\<exists>i w ds. i \<le> length s \<and> contractSubjectRegex_FindStringSubmatch s = [w, ds] \<and>
         contractSubjectRegex_matchAt (drop i s) = Some (w, ds) \<and>
         (\<forall>j<i. contractSubjectRegex_matchAt (drop j s) = None))"
proof (induction s)
  case Nil
  then show ?case by (cases "contractSubjectRegex_matchAt []") auto
next
  case (Cons c cs)
  show ?case
  proof (cases "contractSubjectRegex_matchAt (c # cs)")
    case (Some p)
    obtain w ds where p: "p = (w, ds)" by (cases p)
    have "0 \<le> length (c # cs) \<and> contractSubjectRegex_FindStringSubmatch (c # cs) = [w, ds] \<and>
         contractSubjectRegex_matchAt (drop 0 (c # cs)) = Some (w, ds) \<and>
         (\<forall>j<0. contractSubjectRegex_matchAt (drop j (c # cs)) = None)"
      using Some p by simp
    then show ?thesis by blast
  next
    case None
    from Cons.IH show ?thesis
    proof (elim disjE exE conjE)
      assume e: "contractSubjectRegex_FindStringSubmatch cs = []"
        and n: "\<forall>i\<le>length cs. contractSubjectRegex_matchAt (drop i cs) = None"
      have "\<forall>i\<le>length (c # cs). contractSubjectRegex_matchAt (drop i (c # cs)) = None"
      proof (intro allI impI)
        fix i assume "i \<le> length (c # cs)"
        then show "contractSubjectRegex_matchAt (drop i (c # cs)) = None"
          using None n by (cases i) auto
      qed
      then show ?thesis using None e by simp
    next
      fix i w ds
      assume i: "i \<le> length cs" and f: "contractSubjectRegex_FindStringSubmatch cs = [w, ds]"
        and m: "contractSubjectRegex_matchAt (drop i cs) = Some (w, ds)"
        and n: "\<forall>j<i. contractSubjectRegex_matchAt (drop j cs) = None"
      have "\<forall>j<Suc i. contractSubjectRegex_matchAt (drop j (c # cs)) = None"
      proof (intro allI impI)
        fix j assume "j < Suc i"
        then show "contractSubjectRegex_matchAt (drop j (c # cs)) = None"
          using None n by (cases j) auto
      qed
      moreover have "Suc i \<le> length (c # cs)" using i by simp
      moreover have "contractSubjectRegex_FindStringSubmatch (c # cs) = [w, ds]" using None f by simp
      moreover have "contractSubjectRegex_matchAt (drop (Suc i) (c # cs)) = Some (w, ds)" using m by simp
      ultimately show ?thesis by blast
    qed
  qed
qed

lemma find_Nil_no_token:
  assumes "contractSubjectRegex_FindStringSubmatch s = []"
  shows "\<not> contractTokenAt s i ds"
  using find_cases [of s] assms by (auto simp: tokenAt_iff)

lemma find_Some_first_token:
  assumes "contractSubjectRegex_FindStringSubmatch s = [w, ds]"
  shows "\<exists>i. contractTokenAt s i ds \<and> (\<forall>j<i. \<forall>ds'. \<not> contractTokenAt s j ds')"
proof -
  from find_cases [of s] assms obtain i where i: "i \<le> length s"
    and m: "contractSubjectRegex_matchAt (drop i s) = Some (w, ds)"
    and n: "\<forall>j<i. contractSubjectRegex_matchAt (drop j s) = None"
    by auto
  from matchAt_Some [OF m] have w: "w = ''(contrato '' @ ds @ '')''" by simp
  have "contractTokenAt s i ds" using m w i by (simp add: tokenAt_iff)
  moreover have "\<forall>j<i. \<forall>ds'. \<not> contractTokenAt s j ds'"
    using n by (simp add: tokenAt_iff)
  ultimately show ?thesis by blast
qed

text \<open>
  Claim C1. When the subject holds a token \<^verbatim>\<open>(contrato <digits>)\<close>, the filename prefix is
  the date, \<^verbatim>\<open>-edp-\<close> and the digits of the first such token, followed by \<^verbatim>\<open>-\<close> and
  the alias exactly when the contract is a key of the alias table; when the subject holds
  no such token, the prefix is the date, \<^verbatim>\<open>-\<close> and the message id. The subject
  \<^verbatim>\<open>A sua fatura EDP (contrato 100200300200)\<close> yields the contract 100200300200.
\<close>

theorem filenamePrefix_contract:
  "(contractTokenAt subject i ds \<and> (\<forall>j<i. \<forall>ds'. \<not> contractTokenAt subject j ds') \<longrightarrow>
      filenamePrefix configuration date mId subject =
        (case Contracts configuration ds of
           Some alias \<Rightarrow> date @ ''-edp-'' @ ds @ ''-'' @ alias
         | None \<Rightarrow> date @ ''-edp-'' @ ds))
   \<and> ((\<forall>i ds. \<not> contractTokenAt subject i ds) \<longrightarrow>
        filenamePrefix configuration date mId subject = date @ ''-'' @ mId)
   \<and> contractSubjectRegex_FindStringSubmatch ''A sua fatura EDP (contrato 100200300200)''
        = [''(contrato 100200300200)'', ''100200300200'']"
proof (intro conjI impI)
  assume a: "contractTokenAt subject i ds \<and> (\<forall>j<i. \<forall>ds'. \<not> contractTokenAt subject j ds')"
  then have i: "i \<le> length subject" 
    and m: "contractSubjectRegex_matchAt (drop i subject) = Some (''(contrato '' @ ds @ '')'', ds)"
    by (simp_all add: tokenAt_iff)
  have "contractSubjectRegex_FindStringSubmatch subject = [''(contrato '' @ ds @ '')'', ds]"
  proof (rule find_first [OF m i])
    fix j assume "j < i"
    then show "contractSubjectRegex_matchAt (drop j subject) = None"
      using a i by (simp add: matchAt_None_iff)
  qed
  then show "filenamePrefix configuration date mId subject =
        (case Contracts configuration ds of
           Some alias \<Rightarrow> date @ ''-edp-'' @ ds @ ''-'' @ alias
         | None \<Rightarrow> date @ ''-edp-'' @ ds)"
    by (simp add: filenamePrefix_def split: option.splits)
next
  assume n: "\<forall>i ds. \<not> contractTokenAt subject i ds"
  have "contractSubjectRegex_FindStringSubmatch subject = []"
    by (rule find_none) (use n in \<open>simp add: matchAt_None_iff\<close>)
  then show "filenamePrefix configuration date mId subject = date @ ''-'' @ mId"
    by (simp add: filenamePrefix_def)
next
  show "contractSubjectRegex_FindStringSubmatch ''A sua fatura EDP (contrato 100200300200)''
        = [''(contrato 100200300200)'', ''100200300200'']"
    by (simp add: contractSubjectRegex_matchAt_def isDigit_def)
qed


theorem filenamePrefix_contract_witness:
  "(\<exists>i. contractTokenAt ''A sua fatura EDP (contrato 100200300200)'' i ''100200300200'')
   \<and> filenamePrefix \<lparr>Contracts = [''100200300200'' \<mapsto> ''mafra'']\<rparr> ''2024-07-08'' ''18f3a'' 
         ''A sua fatura EDP (contrato 100200300200)'' = ''2024-07-08-edp-100200300200-mafra''
   \<and> filenamePrefix \<lparr>Contracts = Map.empty\<rparr> ''2024-07-08'' ''18f3a'' 
         ''A sua fatura EDP (contrato 100200300200)'' = ''2024-07-08-edp-100200300200''
   \<and> filenamePrefix \<lparr>Contracts = [''100200300200'' \<mapsto> ''mafra'']\<rparr> ''2024-07-08'' ''18f3a'' 
         ''Fatura (contrato )'' = ''2024-07-08-18f3a''"
proof -
  let ?s = "''A sua fatura EDP (contrato 100200300200)''"
  have f: "contractSubjectRegex_FindStringSubmatch ?s = [''(contrato 100200300200)'', ''100200300200'']"
    by (simp add: contractSubjectRegex_matchAt_def isDigit_def)
  from find_Some_first_token [OF f] obtain i where 
    i: "contractTokenAt ?s i ''100200300200'' \<and> (\<forall>j<i. \<forall>ds'. \<not> contractTokenAt ?s j ds')" by blast
  have g: "contractSubjectRegex_FindStringSubmatch ''Fatura (contrato )'' = []"
    by (simp add: contractSubjectRegex_matchAt_def isDigit_def)
  have n: "\<forall>i ds. \<not> contractTokenAt ''Fatura (contrato )'' i ds"
    using find_Nil_no_token [OF g] by blast
  show ?thesis
    using i n
      filenamePrefix_contract [of ?s i "''100200300200''" "\<lparr>Contracts = [''100200300200'' \<mapsto> ''mafra'']\<rparr>" "''2024-07-08''" "''18f3a''"]
      filenamePrefix_contract [of ?s i "''100200300200''" "\<lparr>Contracts = Map.empty\<rparr>" "''2024-07-08''" "''18f3a''"]
      filenamePrefix_contract [of "''Fatura (contrato )''" 0 "[]" "\<lparr>Contracts = [''100200300200'' \<mapsto> ''mafra'']\<rparr>" "''2024-07-08''" "''18f3a''"]
    by (simp, blast)
qed

section \<open>Properties of the query encoding\<close>

lemma encodeQuery_loop_map:
  "encodeQuery_loop params queries = queries @ map (\<lambda>(key, val). encodeEntry key val) params"
  by (induction params queries rule: encodeQuery_loop.induct) simp_all

lemma Join_Cons: "Join (x # xs) sep = x @ (if xs = [] then [] else sep @ Join xs sep)"
  by (cases xs) simp_all

lemma encodeQuery_Nil: "encodeQuery [] = []"
  by (simp add: encodeQuery_def)

lemma encodeQuery_Cons:
  "encodeQuery ((key, val) # params) =
     encodeEntry key val @ (if params = [] then [] else '' '' @ encodeQuery params)"
  by (simp add: encodeQuery_def encodeQuery_loop_map Join_Cons)

lemma ContainsAny_iff: "ContainsAny val '' :'' \<longleftrightarrow> CHR '' '' \<in> set val \<or> CHR '':'' \<in> set val"
  by (auto simp: ContainsAny_def list_ex_iff)

lemma takeWhile_until:
  "c \<notin> set xs \<Longrightarrow> takeWhile (\<lambda>x. x \<noteq> c) (xs @ c # ys) = xs"
  by (induction xs) auto

lemma dropWhile_until:
  "c \<notin> set xs \<Longrightarrow> dropWhile (\<lambda>x. x \<noteq> c) (xs @ c # ys) = c # ys"
  by (induction xs) auto

lemma takeWhile_all:
  "c \<notin> set xs \<Longrightarrow> takeWhile (\<lambda>x. x \<noteq> c) xs = xs"
  by (induction xs) auto

lemma dropWhile_all:
  "c \<notin> set xs \<Longrightarrow> dropWhile (\<lambda>x. x \<noteq> c) xs = []"
  by (induction xs) auto

lemma dquote_neq: "dquote \<noteq> CHR '' ''" "dquote \<noteq> CHR '':''" "CHR '' '' \<noteq> dquote"
  by (simp_all add: dquote_def)

lemma encodeEntry_nonempty: "encodeEntry key val \<noteq> []"
  by (simp add: encodeEntry_def)

lemma parse_entry:
  assumes k: "CHR '':'' \<notin> set key" and v: "dquote \<notin> set val"
    and t: "tail = [] \<or> (\<exists>t. tail = CHR '' '' # t)"
  shows "parseQuery_entries (encodeEntry key val @ tail) =
           (key, val) # (if tail = [] then [] else parseQuery_entries (drop 1 tail))"
proof (cases "ContainsAny val '' :''")
  case True
  have s: "encodeEntry key val @ tail = key @ CHR '':'' # (dquote # val @ dquote # tail)"
    using True by (simp add: encodeEntry_def)
  show ?thesis
    unfolding s
    by (subst parseQuery_entries.simps)
       (simp add: Let_def takeWhile_until [OF k] dropWhile_until [OF k]
          takeWhile_until [OF v] dropWhile_until [OF v])
next
  case False
  then have sp: "CHR '' '' \<notin> set val" and co: "CHR '':'' \<notin> set val"
    by (simp_all add: ContainsAny_iff)
  have s: "encodeEntry key val @ tail = key @ CHR '':'' # (val @ tail)"
    using False by (simp add: encodeEntry_def)
  have nq: "take 1 (val @ tail) \<noteq> [dquote]"
  proof (cases val)
    case Nil
    then show ?thesis using t by (auto simp: dquote_neq)
  next
    case (Cons a as)
    then show ?thesis using v by auto
  qed
  from t show ?thesis
  proof
    assume "tail = []"
    then show ?thesis
      unfolding s using nq
      by (subst parseQuery_entries.simps)
         (simp add: Let_def takeWhile_until [OF k] dropWhile_until [OF k]
            takeWhile_all [OF sp] dropWhile_all [OF sp])
  next
    assume "\<exists>t. tail = CHR '' '' # t"
    then obtain t' where t': "tail = CHR '' '' # t'" by blast
    show ?thesis
      unfolding s using nq unfolding t'
      by (subst parseQuery_entries.simps)
         (simp add: Let_def takeWhile_until [OF k] dropWhile_until [OF k]
            takeWhile_until [OF sp] dropWhile_until [OF sp])
  qed
qed

lemma encodeQuery_nonempty: "params \<noteq> [] \<Longrightarrow> encodeQuery params \<noteq> []"
  by (cases params) (auto simp: encodeQuery_Cons encodeEntry_nonempty)

lemma parse_entries_encodeQuery:
  assumes "params \<noteq> []"
    and "\<forall>(key, val) \<in> set params. CHR '':'' \<notin> set key \<and> dquote \<notin> set val"
  shows "parseQuery_entries (encodeQuery params) = params"
  using assms
proof (induction params)
  case Nil
  then show ?case by simp
next
  case (Cons p params)
  obtain key val where p: "p = (key, val)" by (cases p)
  have k: "CHR '':'' \<notin> set key" and v: "dquote \<notin> set val" using Cons.prems p by auto
  show ?case
  proof (cases "params = []")
    case True
    then show ?thesis
      using parse_entry [OF k v, of "[]"] by (simp add: p encodeQuery_Cons)
  next
    case False
    have ih: "parseQuery_entries (encodeQuery params) = params"
      using Cons.IH False Cons.prems by auto
    have "parseQuery_entries (encodeEntry key val @ CHR '' '' # encodeQuery params) =
           (key, val) # parseQuery_entries (encodeQuery params)"
      using parse_entry [OF k v, of "CHR '' '' # encodeQuery params"] by simp
    then show ?thesis using False ih by (simp add: p encodeQuery_Cons)
  qed
qed

text \<open>
  Claim C3, as amended. \<^verbatim>\<open>encodeQuery\<close> emits one pair per entry, joined by single spaces:
  \<^verbatim>\<open>key:"value"\<close> when the value holds a space or a colon and \<^verbatim>\<open>key:value\<close> otherwise.
  When no key holds a colon and no value holds a double quote, reading the encoded string
  back as field:value pairs recovers the entries exactly.
\<close>

theorem encodeQuery_roundtrip:
  "length (encodeQuery_loop params []) = length params
   \<and> encodeQuery params = Join (map (\<lambda>(key, val).
        if CHR '' '' \<in> set val \<or> CHR '':'' \<in> set val
        then key @ '':'' @ [dquote] @ val @ [dquote]
        else key @ '':'' @ val) params) '' ''
   \<and> ((\<forall>(key, val) \<in> set params. CHR '':'' \<notin> set key \<and> dquote \<notin> set val) \<longrightarrow>
        parseQuery_spec (encodeQuery params) = params)"
proof (intro conjI impI)
  show "length (encodeQuery_loop params []) = length params"
    by (simp add: encodeQuery_loop_map)
  have "(\<lambda>(key, val). encodeEntry key val) = (\<lambda>(key, val).
        if CHR '' '' \<in> set val \<or> CHR '':'' \<in> set val
        then key @ '':'' @ [dquote] @ val @ [dquote]
        else key @ '':'' @ val)"
    by (auto simp: fun_eq_iff encodeEntry_def ContainsAny_iff)
  then show "encodeQuery params = Join (map (\<lambda>(key, val).
        if CHR '' '' \<in> set val \<or> CHR '':'' \<in> set val
        then key @ '':'' @ [dquote] @ val @ [dquote]
        else key @ '':'' @ val) params) '' ''"
    by (simp add: encodeQuery_def encodeQuery_loop_map)
next
  assume a: "\<forall>(key, val) \<in> set params. CHR '':'' \<notin> set key \<and> dquote \<notin> set val"
  show "parseQuery_spec (encodeQuery params) = params"
  proof (cases "params = []")
    case True
    then show ?thesis by (simp add: parseQuery_spec_def encodeQuery_Nil)
  next
    case False
    then show ?thesis
      using parse_entries_encodeQuery [OF False a] encodeQuery_nonempty [OF False]
      by (simp add: parseQuery_spec_def)
  qed
qed

text \<open>
  The round trip of claim C3 does not hold for every mapping: values are quoted without
  escaping, so two different mappings have the same encoding and no reader recovers both.
\<close>

theorem encodeQuery_roundtrip_counterexample:
  "\<not> (\<exists>parse. \<forall>params. distinct (map fst params) \<longrightarrow>
         map_of (parse (encodeQuery params)) = map_of params)"
proof
  assume "\<exists>parse. \<forall>params. distinct (map fst params) \<longrightarrow>
         map_of (parse (encodeQuery params)) = map_of params"
  then obtain parse :: "string \<Rightarrow> (string \<times> string) list" where
    p: "\<And>params. distinct (map fst params) \<Longrightarrow> map_of (parse (encodeQuery params)) = map_of params"
    by blast
  let ?m1 = "[(''k'', [CHR ''a'', dquote, CHR '' '', CHR ''x'', CHR '':'', dquote, CHR ''b''])]"
  let ?m2 = "[(''k'', [dquote, CHR ''a'', dquote]), (''x'', [dquote, CHR ''b'', dquote])]"
  have e: "encodeQuery ?m1 = encodeQuery ?m2"
    by (simp add: encodeQuery_def encodeEntry_def ContainsAny_def dquote_def)
  have "map_of ?m1 = map_of (parse (encodeQuery ?m1))" using p [of ?m1] by simp
  also have "\<dots> = map_of ?m2" unfolding e using p [of ?m2] by simp
  finally have "map_of ?m1 ''x'' = map_of ?m2 ''x''" by simp
  then show False by simp
qed

theorem encodeQuery_roundtrip_witness:
  "parseQuery_spec (encodeQuery [(''from'', ''faturaedp@edp.pt''), (''has'', ''attachment''), (''subject'', ''a sua fatura'')])
     = [(''from'', ''faturaedp@edp.pt''), (''has'', ''attachment''), (''subject'', ''a sua fatura'')]
   \<and> encodeQuery [(''from'', ''faturaedp@edp.pt''), (''has'', ''attachment''), (''subject'', ''a sua fatura'')]
     = ''from:faturaedp@edp.pt has:attachment subject:'' @ [dquote] @ ''a sua fatura'' @ [dquote]"
proof -
  let ?ps = "[(''from'', ''faturaedp@edp.pt''), (''has'', ''attachment''), (''subject'', ''a sua fatura'')]"
  have h: "\<forall>(key, val) \<in> set ?ps. CHR '':'' \<notin> set key \<and> dquote \<notin> set val"
    by (simp add: dquote_def)
  have e: "encodeQuery ?ps = ''from:faturaedp@edp.pt has:attachment subject:'' @ [dquote] @ ''a sua fatura'' @ [dquote]"
    by (simp add: encodeQuery_def encodeEntry_def ContainsAny_def)
  from encodeQuery_roundtrip [of ?ps] h have "parseQuery_spec (encodeQuery ?ps) = ?ps" by blast
  with e show ?thesis by blast
qed

section \<open>Properties of the date formatting\<close>

lemma isDigit_digitChar: "(k::nat) < 10 \<Longrightarrow> isDigit (digitChar k)"
proof -
  assume "k < 10"
  then have "k = 0 \<or> k = 1 \<or> k = 2 \<or> k = 3 \<or> k = 4 \<or> k = 5 \<or> k = 6
    \<or> k = 7 \<or> k = 8 \<or> k = 9" by arith
  then show ?thesis by (elim disjE) (simp_all add: digitChar_def isDigit_def)
qed

lemma decimal_digits: "list_all isDigit (decimal n)"
proof (induction n rule: decimal.induct)
  case (1 n)
  show ?case
  proof (cases "n < 10")
    case True
    then show ?thesis by (subst decimal.simps) (simp add: isDigit_digitChar)
  next
    case False
    then show ?thesis using 1 by (subst decimal.simps) (simp add: isDigit_digitChar)
  qed
qed

lemma decimal_length1: "n < 10 \<Longrightarrow> length (decimal n) = 1"
  by (subst decimal.simps) simp

lemma decimal_length2: "n < 100 \<Longrightarrow> length (decimal n) \<le> 2"
  by (subst decimal.simps) (simp add: decimal_length1)

lemma decimal_length3: "n < 1000 \<Longrightarrow> length (decimal n) \<le> 3"
  using decimal_length2 [of "n div 10"] by (subst decimal.simps) (simp add: decimal_length1)

lemma decimal_length4: "n < 10000 \<Longrightarrow> length (decimal n) \<le> 4"
  using decimal_length3 [of "n div 10"] by (subst decimal.simps) (simp add: decimal_length1)

lemma appendInt_shape:
  assumes "0 \<le> x" and "length (decimal (nat \<bar>x\<bar>)) \<le> width"
  shows "length (appendInt x width) = width \<and> list_all isDigit (appendInt x width)"
proof -
  have "list_all isDigit (replicate n (CHR ''0''))" for n
    by (induction n) (simp_all add: isDigit_def)
  then show ?thesis using assms by (simp add: appendInt_def decimal_digits)
qed

lemma monthDay_fst: "fst (monthDay ls m y) < m + max 1 (length ls)"
  by (induction ls m y rule: monthDay.induct) auto

lemma monthDay_snd:
  "list_all (\<lambda>l. l \<le> b) ls \<Longrightarrow> y \<le> sum_list (butlast ls) + b \<Longrightarrow> snd (monthDay ls m y) \<le> b + 1"
  by (induction ls m y rule: monthDay.induct) auto

lemma monthDay_bounds:
  assumes "yday \<le> 365"
  shows "fst (monthDay (monthLengths year) 1 yday) \<le> 12 \<and> snd (monthDay (monthLengths year) 1 yday) \<le> 32"
proof -
  have l: "length (monthLengths year) = 12" by (simp add: monthLengths_def)
  have a: "list_all (\<lambda>l. l \<le> 31) (monthLengths year)" by (simp add: monthLengths_def)
  have s: "334 \<le> sum_list (butlast (monthLengths year))" by (simp add: monthLengths_def)
  have "fst (monthDay (monthLengths year) 1 yday) < 1 + max 1 (length (monthLengths year))"
    by (rule monthDay_fst)
  moreover have "snd (monthDay (monthLengths year) 1 yday) \<le> 31 + 1"
    by (rule monthDay_snd [OF a]) (use s assms in linarith)
  ultimately show ?thesis using l by simp
qed

lemma yearDay_bounds: "0 \<le> snd (yearDay days) \<and> snd (yearDay days) \<le> 365"
proof -
  define d3 where "d3 = (((days + 719162) mod 146097
      - 36524 * min 3 ((days + 719162) mod 146097 div 36524)) mod 1461)"
  have b: "0 \<le> d3" "d3 < 1461" unfolding d3_def by simp_all
  have "0 \<le> d3 - 365 * min 3 (d3 div 365) \<and> d3 - 365 * min 3 (d3 div 365) \<le> 365"
  proof (cases "d3 div 365 \<le> 3")
    case True
    then have "min 3 (d3 div 365) = d3 div 365" by simp
    moreover have "d3 - 365 * (d3 div 365) = d3 mod 365" by (simp add: minus_mult_div_eq_mod)
    moreover have "0 \<le> d3 mod 365" "d3 mod 365 < 365" by simp_all
    ultimately show ?thesis by simp
  next
    case False
    then have m: "min 3 (d3 div 365) = 3" by simp
    from False have "4 \<le> d3 div 365" by simp
    moreover have "d3 = 365 * (d3 div 365) + d3 mod 365" by simp
    moreover have "0 \<le> d3 mod 365" by simp
    ultimately have "4 * 365 \<le> d3" by linarith
    then show ?thesis using b m by simp
  qed
  then show ?thesis
    unfolding yearDay_def Let_def d3_def by (simp only: snd_conv)
qed

lemma civil_bounds:
  "fst (snd (civil days)) \<le> 12 \<and> snd (snd (civil days)) \<le> 32"
proof -
  have "nat (snd (yearDay days)) \<le> 365" using yearDay_bounds [of days] by linarith
  from monthDay_bounds [OF this, of "fst (yearDay days)"] show ?thesis
    by (simp only: civil_def Let_def fst_conv snd_conv)
qed

lemma isDateShape_parts:
  assumes "length y = 4" "list_all isDigit y" "length m = 2" "list_all isDigit m"
    "length d = 2" "list_all isDigit d"
  shows "isDateShape (y @ ''-'' @ m @ ''-'' @ d)"
  using assms by (simp add: isDateShape_def)

text \<open>
  Claim C7, as amended. \<^verbatim>\<open>formatDate\<close> is a function of the timestamp (and of the zone
  rules of the run): equal timestamps give equal strings. Whenever the local calendar
  year of the timestamp lies between 0 and 9999, the result has the shape
  \<^verbatim>\<open>YYYY-MM-DD\<close>: four digits, a hyphen, two digits, a hyphen, two digits.
\<close>

theorem formatDate_shape:
  "(ms1 = ms2 \<longrightarrow> formatDate zoneOffset ms1 = formatDate zoneOffset ms2)
   \<and> (0 \<le> fst (localDate zoneOffset ms) \<and> fst (localDate zoneOffset ms) \<le> 9999 \<longrightarrow>
        isDateShape (formatDate zoneOffset ms))"
proof (intro conjI impI)
  assume "ms1 = ms2"
  then show "formatDate zoneOffset ms1 = formatDate zoneOffset ms2" by simp
next
  assume y: "0 \<le> fst (localDate zoneOffset ms) \<and> fst (localDate zoneOffset ms) \<le> 9999"
  obtain year month day where l: "localDate zoneOffset ms = (year, month, day)"
    by (cases "localDate zoneOffset ms") auto
  have "month \<le> 12 \<and> day \<le> 32"
    using civil_bounds [of "(fst (time_Unix (go_quot ms 1000) (go_rem ms 1000 * 1000000))
        + zoneOffset (fst (time_Unix (go_quot ms 1000) (go_rem ms 1000 * 1000000)))) div 86400"] l
    by (simp add: localDate_def Let_def)
  then have m: "length (appendInt (int month) 2) = 2 \<and> list_all isDigit (appendInt (int month) 2)"
    and d: "length (appendInt (int day) 2) = 2 \<and> list_all isDigit (appendInt (int day) 2)"
    by (auto intro!: appendInt_shape decimal_length2)
  have yy: "length (appendInt year 4) = 4 \<and> list_all isDigit (appendInt year 4)"
    using y l by (auto intro!: appendInt_shape decimal_length4)
  show "isDateShape (formatDate zoneOffset ms)"
    using isDateShape_parts [of "appendInt year 4" "appendInt (int month) 2" "appendInt (int day) 2"] m d yy
    by (simp add: formatDate_def l)
qed

lemma localDate_2024: "localDate (\<lambda>_. 0) 1720400000000 = (2024, 7, 8)"
  by code_simp

lemma formatDate_2024: "formatDate (\<lambda>_. 0) 1720400000000 = ''2024-07-08''"
  by (simp add: formatDate_def localDate_2024 appendInt_def decimal.simps digitChar_def)

lemma localDate_10000: "localDate (\<lambda>_. 0) 253402300800000 = (10000, 1, 1)"
  by code_simp

lemma decimal_10000: "decimal 10000 = ''10000''"
  by (simp add: decimal.simps digitChar_def)

lemma decimal_1: "decimal (Suc 0) = ''1''"
  by (subst decimal.simps) (simp add: digitChar_def)

lemma formatDate_10000: "formatDate (\<lambda>_. 0) 253402300800000 = ''10000-01-01''"
proof -
  have "appendInt 10000 4 = ''10000''" by (simp add: appendInt_def decimal_10000)
  moreover have "appendInt (int 1) 2 = ''01''" by (simp add: appendInt_def decimal_1)
  ultimately show ?thesis by (simp only: formatDate_def localDate_10000 prod.case) simp
qed

text \<open>
  The shape of claim C7 does not hold for every \<^verbatim>\<open>int64\<close> timestamp: the first
  millisecond of the year 10000 (in UTC) is printed with a year of five digits.
\<close>

theorem formatDate_shape_counterexample:
  "\<not> isDateShape (formatDate (\<lambda>_. 0) 253402300800000)"
  unfolding formatDate_10000 by (simp add: isDateShape_def)

theorem formatDate_shape_witness:
  "fst (localDate (\<lambda>_. 0) 1720400000000) = 2024
   \<and> formatDate (\<lambda>_. 0) 1720400000000 = ''2024-07-08''
   \<and> isDateShape (formatDate (\<lambda>_. 0) 1720400000000)"
  using formatDate_shape [of 1720400000000 1720400000000 "\<lambda>_. 0" 1720400000000]
  by (simp add: localDate_2024 formatDate_2024)

section \<open>Properties of saving attachments and messages\<close>

lemma decodeQuanta_length:
  "decodeQuanta t = Inr out \<Longrightarrow> length t mod 4 = 0"
proof (induction t arbitrary: out rule: decodeQuanta.induct)
  case 1
  then show ?case by simp
next
  case (2 a b c d rest)
  then show ?case
    by (auto split: option.splits if_splits sum.splits)
qed simp_all

lemma DecodeString_length:
  assumes "list_all (\<lambda>c. \<not> isNewline c) s" and "length s mod 4 \<noteq> 0"
  shows "\<exists>err. base64_URLEncoding_DecodeString s = Inl err"
proof -
  have "filter (\<lambda>c. \<not> isNewline c) s = s"
    using assms(1) by (simp add: list_all_iff)
  then have e: "base64_URLEncoding_DecodeString s = decodeQuanta s"
    by (simp add: base64_URLEncoding_DecodeString_def)
  show ?thesis
  proof (cases "decodeQuanta s")
    case (Inl err)
    then show ?thesis using e by simp
  next
    case (Inr out)
    then show ?thesis using decodeQuanta_length [OF Inr] assms(2) by simp
  qed
qed

lemma os_WriteFile_None:
  "fst (os_WriteFile env name content st) = None \<longleftrightarrow> \<not> unwritable env name \<and> \<not> writeFails env name"
  by (simp add: os_WriteFile_def Let_def)

lemma os_WriteFile_files:
  "fst (os_WriteFile env name content st) = None \<Longrightarrow>
     files (snd (os_WriteFile env name content st)) = (files st)(name \<mapsto> content)"
  by (simp add: os_WriteFile_def Let_def emit_def split: if_splits)

lemma saveAttachment_decode_error:
  "base64_URLEncoding_DecodeString (Data part) = Inl err \<Longrightarrow>
     saveAttachment env filename part st =
       (Some (Error (''unable to decode attachment data: '' @ errorText err)), st)"
  by (simp add: saveAttachment_def)

lemma saveRawMessage_decode_error:
  "base64_URLEncoding_DecodeString rawContent = Inl err \<Longrightarrow>
     saveRawMessage env filename rawContent st =
       (Some (Error (''unable to decode message content: '' @ errorText err)), st)"
  by (simp add: saveRawMessage_def)

lemma saveAttachment_None:
  "fst (saveAttachment env filename part st) = None \<longleftrightarrow>
     (\<exists>content. base64_URLEncoding_DecodeString (Data part) = Inr content \<and>
        fst (os_WriteFile env filename content st) = None)"
  by (cases "base64_URLEncoding_DecodeString (Data part)")
     (auto simp: saveAttachment_def split: prod.splits option.splits)

lemma saveRawMessage_None:
  "fst (saveRawMessage env filename rawContent st) = None \<longleftrightarrow>
     (\<exists>content. base64_URLEncoding_DecodeString rawContent = Inr content \<and>
        fst (os_WriteFile env filename content st) = None)"
  by (cases "base64_URLEncoding_DecodeString rawContent")
     (auto simp: saveRawMessage_def split: prod.splits option.splits)

lemma decode_QUJD: "base64_URLEncoding_DecodeString ''QUJD'' = Inr ''ABC''"
  by (simp add: base64_URLEncoding_DecodeString_def isNewline_def decodeMap_def quantumBytes_def
      char_of_eq_iff take_bit_eq_mod)

lemma decode_QUJ: "base64_URLEncoding_DecodeString ''QUJ'' = Inl (Error ''illegal base64 data'')"
  by (simp add: base64_URLEncoding_DecodeString_def isNewline_def decodeMap_def quantumBytes_def)

lemma decode_padded: "base64_URLEncoding_DecodeString ''QUI='' = Inr ''AB''"
   "base64_URLEncoding_DecodeString ''QQ=='' = Inr ''A''"
   "base64_URLEncoding_DecodeString ''_-8='' = Inr [CHR 0xFF, CHR 0xEF]"
   "base64_URLEncoding_DecodeString ''QQ=A'' = Inl (Error ''illegal base64 data'')"
   "base64_URLEncoding_DecodeString ''QUJD+A=='' = Inl (Error ''illegal base64 data'')"
   "base64_URLEncoding_DecodeString [CHR ''Q'', CHR ''U'', CHR 0x0A, CHR ''J'', CHR ''D'', CHR 0x0D, CHR 0x0A] = Inr ''ABC''"
  by (simp_all add: base64_URLEncoding_DecodeString_def isNewline_def decodeMap_def
      quantumBytes_def char_of_eq_iff take_bit_eq_mod)

lemma DecodeString_filtered_length:
  assumes "length (filter (\<lambda>c. \<not> isNewline c) s) mod 4 \<noteq> 0"
  shows "\<exists>err. base64_URLEncoding_DecodeString s = Inl err"
proof (cases "base64_URLEncoding_DecodeString s")
  case (Inl err)
  then show ?thesis by simp
next
  case (Inr out)
  then have "decodeQuanta (filter (\<lambda>c. \<not> isNewline c) s) = Inr out"
    by (simp add: base64_URLEncoding_DecodeString_def)
  from decodeQuanta_length [OF this] assms show ?thesis by simp
qed

lemma os_WriteFile_trace:
  "trace (snd (os_WriteFile env name content st)) = trace st @ [WriteFile name content]"
  by (simp add: os_WriteFile_def Let_def emit_def)

lemma saveAttachment_decoded:
  assumes "base64_URLEncoding_DecodeString (Data part) = Inr content"
  shows "snd (saveAttachment env filename part st) = snd (os_WriteFile env filename content st)"
    and "fst (saveAttachment env filename part st) = None \<longleftrightarrow>
           fst (os_WriteFile env filename content st) = None"
  using assms by (auto simp: saveAttachment_def split: prod.splits option.splits)

lemma saveRawMessage_decoded:
  assumes "base64_URLEncoding_DecodeString rawContent = Inr content"
  shows "snd (saveRawMessage env filename rawContent st) = snd (os_WriteFile env filename content st)"
    and "fst (saveRawMessage env filename rawContent st) = None \<longleftrightarrow>
           fst (os_WriteFile env filename content st) = None"
  using assms by (auto simp: saveRawMessage_def split: prod.splits option.splits)

lemma saveAttachment_nil_state:
  assumes "fst (saveAttachment env filename part st) = None"
  shows "\<exists>content. base64_URLEncoding_DecodeString (Data part) = Inr content \<and>
     \<not> unwritable env filename \<and> \<not> writeFails env filename \<and>
     files (snd (saveAttachment env filename part st)) = (files st)(filename \<mapsto> content) \<and>
     trace (snd (saveAttachment env filename part st)) = trace st @ [WriteFile filename content]"
proof -
  from assms obtain content where d: "base64_URLEncoding_DecodeString (Data part) = Inr content"
    and w: "fst (os_WriteFile env filename content st) = None"
    by (auto simp: saveAttachment_None)
  show ?thesis
    using d w os_WriteFile_files [OF w] os_WriteFile_trace [of env filename content st]
      saveAttachment_decoded(1) [OF d, of env filename st]
    by (simp add: os_WriteFile_None)
qed

lemma saveRawMessage_nil_state:
  assumes "fst (saveRawMessage env filename rawContent st) = None"
  shows "\<exists>content. base64_URLEncoding_DecodeString rawContent = Inr content \<and>
     \<not> unwritable env filename \<and> \<not> writeFails env filename \<and>
     files (snd (saveRawMessage env filename rawContent st)) = (files st)(filename \<mapsto> content) \<and>
     trace (snd (saveRawMessage env filename rawContent st)) = trace st @ [WriteFile filename content]"
proof -
  from assms obtain content where d: "base64_URLEncoding_DecodeString rawContent = Inr content"
    and w: "fst (os_WriteFile env filename content st) = None"
    by (auto simp: saveRawMessage_None)
  show ?thesis
    using d w os_WriteFile_files [OF w] os_WriteFile_trace [of env filename content st]
      saveRawMessage_decoded(1) [OF d, of env filename st]
    by (simp add: os_WriteFile_None)
qed

lemma decode_QUJD_newline:
  "base64_URLEncoding_DecodeString (''QUJD'' @ [CHR 0x0A]) = Inr ''ABC''"
  by (simp add: base64_URLEncoding_DecodeString_def isNewline_def decodeMap_def quantumBytes_def
      char_of_eq_iff take_bit_eq_mod)

text \<open>
  Claim C9, as amended. \<^verbatim>\<open>saveAttachment\<close> and \<^verbatim>\<open>saveRawMessage\<close> decode before they
  write. When the base64 decoding of the input fails (for example when its length, not
  counting the carriage returns and line feeds that the decoder ignores, is not a
  multiple of 4) they return an error and leave the state, and with it every file, as it
  was. When the input decodes, they call \<^verbatim>\<open>os.WriteFile\<close> with the decoded content: the
  state they leave is the one that call leaves, and they return nil exactly when that
  call succeeds. So they return nil exactly when the decoding and the write both
  succeed, and then the named file holds the decoded content, no other file has changed,
  and the call of \<^verbatim>\<open>os.WriteFile\<close> is the one event of the save.
\<close>

theorem save_decodes_before_writing:
  "(base64_URLEncoding_DecodeString (Data part) = Inl err \<longrightarrow>
      fst (saveAttachment env filename part st) \<noteq> None \<and>
      snd (saveAttachment env filename part st) = st)
   \<and> (base64_URLEncoding_DecodeString rawContent = Inl err \<longrightarrow>
      fst (saveRawMessage env filename rawContent st) \<noteq> None \<and>
      snd (saveRawMessage env filename rawContent st) = st)
   \<and> (length (filter (\<lambda>c. \<not> isNewline c) s) mod 4 \<noteq> 0 \<longrightarrow>
      (\<exists>e. base64_URLEncoding_DecodeString s = Inl e))
   \<and> (base64_URLEncoding_DecodeString (Data part) = Inr decoded \<longrightarrow>
      snd (saveAttachment env filename part st) = snd (os_WriteFile env filename decoded st) \<and>
      (fst (saveAttachment env filename part st) = None \<longleftrightarrow>
         fst (os_WriteFile env filename decoded st) = None))
   \<and> (base64_URLEncoding_DecodeString rawContent = Inr decoded \<longrightarrow>
      snd (saveRawMessage env filename rawContent st) = snd (os_WriteFile env filename decoded st) \<and>
      (fst (saveRawMessage env filename rawContent st) = None \<longleftrightarrow>
         fst (os_WriteFile env filename decoded st) = None))
   \<and> (fst (saveAttachment env filename part st) = None \<longleftrightarrow>
      (\<exists>content. base64_URLEncoding_DecodeString (Data part) = Inr content \<and>
         fst (os_WriteFile env filename content st) = None))
   \<and> (fst (saveRawMessage env filename rawContent st) = None \<longleftrightarrow>
      (\<exists>content. base64_URLEncoding_DecodeString rawContent = Inr content \<and>
         fst (os_WriteFile env filename content st) = None))
   \<and> (fst (saveAttachment env filename part st) = None \<longrightarrow>
      (\<exists>content. base64_URLEncoding_DecodeString (Data part) = Inr content \<and>
         \<not> unwritable env filename \<and> \<not> writeFails env filename \<and>
         files (snd (saveAttachment env filename part st)) = (files st)(filename \<mapsto> content) \<and>
         trace (snd (saveAttachment env filename part st)) =
           trace st @ [WriteFile filename content]))
   \<and> (fst (saveRawMessage env filename rawContent st) = None \<longrightarrow>
      (\<exists>content. base64_URLEncoding_DecodeString rawContent = Inr content \<and>
         \<not> unwritable env filename \<and> \<not> writeFails env filename \<and>
         files (snd (saveRawMessage env filename rawContent st)) = (files st)(filename \<mapsto> content) \<and>
         trace (snd (saveRawMessage env filename rawContent st)) =
           trace st @ [WriteFile filename content]))"
proof (intro conjI impI)
  show "fst (saveAttachment env filename part st) \<noteq> None"
    and "snd (saveAttachment env filename part st) = st"
    if "base64_URLEncoding_DecodeString (Data part) = Inl err"
    using that by (simp_all add: saveAttachment_decode_error)
  show "fst (saveRawMessage env filename rawContent st) \<noteq> None"
    and "snd (saveRawMessage env filename rawContent st) = st"
    if "base64_URLEncoding_DecodeString rawContent = Inl err"
    using that by (simp_all add: saveRawMessage_decode_error)
  show "\<exists>e. base64_URLEncoding_DecodeString s = Inl e"
    if "length (filter (\<lambda>c. \<not> isNewline c) s) mod 4 \<noteq> 0"
    using that by (rule DecodeString_filtered_length)
  show "snd (saveAttachment env filename part st) = snd (os_WriteFile env filename decoded st)"
    and "fst (saveAttachment env filename part st) = None \<longleftrightarrow>
         fst (os_WriteFile env filename decoded st) = None"
    if "base64_URLEncoding_DecodeString (Data part) = Inr decoded"
    using saveAttachment_decoded [OF that] by simp_all
  show "snd (saveRawMessage env filename rawContent st) = snd (os_WriteFile env filename decoded st)"
    and "fst (saveRawMessage env filename rawContent st) = None \<longleftrightarrow>
         fst (os_WriteFile env filename decoded st) = None"
    if "base64_URLEncoding_DecodeString rawContent = Inr decoded"
    using saveRawMessage_decoded [OF that] by simp_all
  show "fst (saveAttachment env filename part st) = None \<longleftrightarrow>
      (\<exists>content. base64_URLEncoding_DecodeString (Data part) = Inr content \<and>
         fst (os_WriteFile env filename content st) = None)"
    by (rule saveAttachment_None)
  show "fst (saveRawMessage env filename rawContent st) = None \<longleftrightarrow>
      (\<exists>content. base64_URLEncoding_DecodeString rawContent = Inr content \<and>
         fst (os_WriteFile env filename content st) = None)"
    by (rule saveRawMessage_None)
  show "\<exists>content. base64_URLEncoding_DecodeString (Data part) = Inr content \<and>
         \<not> unwritable env filename \<and> \<not> writeFails env filename \<and>
         files (snd (saveAttachment env filename part st)) = (files st)(filename \<mapsto> content) \<and>
         trace (snd (saveAttachment env filename part st)) =
           trace st @ [WriteFile filename content]"
    if "fst (saveAttachment env filename part st) = None"
    using that by (rule saveAttachment_nil_state)
  show "\<exists>content. base64_URLEncoding_DecodeString rawContent = Inr content \<and>
         \<not> unwritable env filename \<and> \<not> writeFails env filename \<and>
         files (snd (saveRawMessage env filename rawContent st)) = (files st)(filename \<mapsto> content) \<and>
         trace (snd (saveRawMessage env filename rawContent st)) =
           trace st @ [WriteFile filename content]"
    if "fst (saveRawMessage env filename rawContent st) = None"
    using that by (rule saveRawMessage_nil_state)
qed

theorem save_decodes_before_writing_witness:
  "base64_URLEncoding_DecodeString ''QUJ'' = Inl (Error ''illegal base64 data'')
   \<and> fst (saveAttachment quietEnv ''f.pdf'' \<lparr>AttachmentId = ''a'', Data = ''QUJ''\<rparr> emptyState) \<noteq> None
   \<and> snd (saveAttachment quietEnv ''f.pdf'' \<lparr>AttachmentId = ''a'', Data = ''QUJ''\<rparr> emptyState) = emptyState
   \<and> fst (saveRawMessage quietEnv ''m.eml'' ''QUJ'' emptyState) \<noteq> None
   \<and> snd (saveRawMessage quietEnv ''m.eml'' ''QUJ'' emptyState) = emptyState
   \<and> fst (saveAttachment quietEnv ''f.pdf'' \<lparr>AttachmentId = ''a'', Data = ''QUJD''\<rparr> emptyState) = None
   \<and> files (snd (saveAttachment quietEnv ''f.pdf'' \<lparr>AttachmentId = ''a'', Data = ''QUJD''\<rparr> emptyState))
        ''f.pdf'' = Some ''ABC''
   \<and> fst (saveRawMessage quietEnv ''m.eml'' ''QUJD'' emptyState) = None
   \<and> snd (saveRawMessage quietEnv ''m.eml'' ''QUJD'' emptyState)
        = \<lparr>files = [''m.eml'' \<mapsto> ''ABC''], trace = [WriteFile ''m.eml'' ''ABC'']\<rparr>"
proof -
  have w: "fst (os_WriteFile quietEnv name content emptyState) = None" for name content
    by (simp add: os_WriteFile_None quietEnv_def)
  have ws: "snd (os_WriteFile quietEnv name content emptyState)
      = \<lparr>files = [name \<mapsto> content], trace = [WriteFile name content]\<rparr>" for name content
    by (simp add: os_WriteFile_def Let_def emit_def quietEnv_def emptyState_def)
  have n: "length (filter (\<lambda>c. \<not> isNewline c) ''QUJ'') mod 4 \<noteq> 0"
    by (simp add: isNewline_def)
  show ?thesis
    using n w [of "''f.pdf''" "''ABC''"] w [of "''m.eml''" "''ABC''"]
      ws [of "''f.pdf''" "''ABC''"] ws [of "''m.eml''" "''ABC''"]
      save_decodes_before_writing [where part = "\<lparr>AttachmentId = ''a'', Data = ''QUJ''\<rparr>"
        and err = "Error ''illegal base64 data''" and env = quietEnv and filename = "''f.pdf''"
        and st = emptyState and rawContent = "''QUJ''" and s = "''QUJ''" and decoded = "''ABC''"]
      save_decodes_before_writing [where part = "\<lparr>AttachmentId = ''a'', Data = ''QUJD''\<rparr>"
        and err = "Error ''illegal base64 data''" and env = quietEnv and filename = "''f.pdf''"
        and st = emptyState and rawContent = "''QUJ''" and s = "''QUJ''" and decoded = "''ABC''"]
      save_decodes_before_writing [where part = "\<lparr>AttachmentId = ''a'', Data = ''QUJ''\<rparr>"
        and err = "Error ''illegal base64 data''" and env = quietEnv and filename = "''m.eml''"
        and st = emptyState and rawContent = "''QUJ''" and s = "''QUJ''" and decoded = "''ABC''"]
      save_decodes_before_writing [where part = "\<lparr>AttachmentId = ''a'', Data = ''QUJD''\<rparr>"
        and err = "Error ''illegal base64 data''" and env = quietEnv and filename = "''m.eml''"
        and st = emptyState and rawContent = "''QUJD''" and s = "''QUJ''" and decoded = "''ABC''"]
    by (simp add: decode_QUJ decode_QUJD)
qed

text \<open>
  Claim C9 as stated names, as an example of an input that fails to decode, one whose
  length is not a multiple of 4. The decoder of Go ignores line breaks: the five bytes
  \<^verbatim>\<open>QUJD\<close> and a line feed decode to \<^verbatim>\<open>ABC\<close>, and both functions write the file and
  return nil.
\<close>

theorem save_decodes_before_writing_counterexample:
  "length (''QUJD'' @ [CHR 0x0A]) mod 4 = 1
   \<and> base64_URLEncoding_DecodeString (''QUJD'' @ [CHR 0x0A]) = Inr ''ABC''
   \<and> saveRawMessage quietEnv ''m.eml'' (''QUJD'' @ [CHR 0x0A]) emptyState
        = (None, \<lparr>files = [''m.eml'' \<mapsto> ''ABC''], trace = [WriteFile ''m.eml'' ''ABC'']\<rparr>)
   \<and> saveAttachment quietEnv ''f.pdf'' \<lparr>AttachmentId = ''a'', Data = ''QUJD'' @ [CHR 0x0A]\<rparr> emptyState
        = (None, \<lparr>files = [''f.pdf'' \<mapsto> ''ABC''], trace = [WriteFile ''f.pdf'' ''ABC'']\<rparr>)"
  using decode_QUJD_newline
  by (simp add: saveRawMessage_def saveAttachment_def os_WriteFile_def
      Let_def emit_def quietEnv_def emptyState_def)

section \<open>Properties of the configuration and of the credentials\<close>

lemma os_ReadFile_missing: "files st name = None \<Longrightarrow> os_ReadFile env st name = Inl ErrNotExist"
  by (simp add: os_ReadFile_def)

lemma os_ReadFile_present:
  "files st name = Some content \<Longrightarrow> \<not> unreadable env name \<Longrightarrow> os_ReadFile env st name = Inr content"
  by (simp add: os_ReadFile_def)

lemma os_ReadFile_denied:
  "files st name = Some content \<Longrightarrow> unreadable env name \<Longrightarrow>
     os_ReadFile env st name = Inl (Error ''permission denied'')"
  by (simp add: os_ReadFile_def)

text \<open>
  Claim C8. On a file that does not exist \<^verbatim>\<open>getConfiguration\<close> returns the empty
  configuration and no error. On a file that exists and whose YAML does not parse it
  returns an error, and \<^verbatim>\<open>main\<close> then ends the run at once: the state is the initial
  one, so no authorization was entered and no request was sent to the mailbox.
\<close>

theorem getConfiguration_missing_or_malformed:
  "(files st filename = None \<longrightarrow>
      getConfiguration env st filename = Inr \<lparr>Contracts = Map.empty\<rparr>)
   \<and> (files st filename = Some yamlData \<and> \<not> unreadable env filename \<and>
        yamlUnmarshal env yamlData = Inl err \<longrightarrow>
      getConfiguration env st filename =
        Inl (Error (''error unmarshaling YAML: '' @ errorText err)))
   \<and> (files st ''config.yaml'' = Some yamlData \<and> \<not> unreadable env ''config.yaml'' \<and>
        yamlUnmarshal env yamlData = Inl err \<longrightarrow>
      main env st =
        (Fatal (''Unable to read the configuration: error unmarshaling YAML: '' @ errorText err),
         st))"
  by (simp add: getConfiguration_def main_def os_ReadFile_def errorText_def)

theorem getConfiguration_missing_or_malformed_witness:
  "getConfiguration quietEnv emptyState ''config.yaml'' = Inr \<lparr>Contracts = Map.empty\<rparr>
   \<and> getConfiguration (quietEnv\<lparr>yamlUnmarshal := \<lambda>yamlData. Inl (Error ''yaml: did not find expected key'')\<rparr>)
        (emptyState\<lparr>files := [''config.yaml'' \<mapsto> ''contracts: {'']\<rparr>) ''config.yaml''
        = Inl (Error ''error unmarshaling YAML: yaml: did not find expected key'')
   \<and> main (quietEnv\<lparr>yamlUnmarshal := \<lambda>yamlData. Inl (Error ''yaml: did not find expected key'')\<rparr>)
        (emptyState\<lparr>files := [''config.yaml'' \<mapsto> ''contracts: {'']\<rparr>)
        = (Fatal ''Unable to read the configuration: error unmarshaling YAML: yaml: did not find expected key'',
           emptyState\<lparr>files := [''config.yaml'' \<mapsto> ''contracts: {'']\<rparr>)"
  using getConfiguration_missing_or_malformed [where st = emptyState and filename = "''config.yaml''"
      and env = quietEnv and yamlData = "[]" and err = ErrNotExist]
    getConfiguration_missing_or_malformed [where st = "emptyState\<lparr>files := [''config.yaml'' \<mapsto> ''contracts: {'']\<rparr>"
      and filename = "''config.yaml''"
      and env = "quietEnv\<lparr>yamlUnmarshal := \<lambda>yamlData. Inl (Error ''yaml: did not find expected key'')\<rparr>"
      and yamlData = "''contracts: {''" and err = "Error ''yaml: did not find expected key''"]
  by (simp add: emptyState_def quietEnv_def errorText_def)

lemma tokenFromFile_ok:
  "snd (tokenFromFile env st file) = None \<longleftrightarrow>
     (\<exists>content. files st file = Some content \<and> \<not> unreadable env file \<and>
        snd (jsonDecodeToken env content) = None)"
  by (auto simp: tokenFromFile_def os_ReadFile_def split: option.splits prod.splits)

lemma tokenFromFile_token:
  "tokenFromFile env st file = (tok, None) \<Longrightarrow> tok \<noteq> None"
  by (auto simp: tokenFromFile_def split: sum.splits prod.splits)

lemma saveToken_trace:
  "trace (snd (saveToken env path token st)) =
     trace st @ [Stdout (''Saving credential file to: '' @ path @ [CHR 0x0A])]"
  by (simp add: saveToken_def Let_def emit_def split: sum.splits)

lemma saveToken_result:
  "fst (saveToken env path token st) =
     (if unwritable env path then Fatal ''Unable to cache oauth token: permission denied''
      else Return ())"
  by (simp add: saveToken_def Let_def split: sum.splits)

lemma getTokenFromWeb_trace:
  "trace (snd (getTokenFromWeb env config st)) = trace st @ [Authorization (RedirectURL config)]"
  by (simp add: getTokenFromWeb_def Let_def emit_def split: sum.splits)

lemma getClient_saved:
  assumes "files st ''token.json'' = Some content" "\<not> unreadable env ''token.json''"
    "jsonDecodeToken env content = (tok, None)"
  shows "getClient env config st = (Return tok, st)"
  using assms by (simp add: getClient_def tokenFromFile_def os_ReadFile_def)

lemma getClient_flow:
  assumes "snd (tokenFromFile env st ''token.json'') \<noteq> None"
  shows "filter is_Authorization (trace (snd (getClient env config st))) =
           filter is_Authorization (trace st) @ [Authorization ''http://localhost:8080/oauth2/callback'']"
proof -
  let ?c = "config\<lparr>RedirectURL := ''http://localhost:8080/oauth2/callback''\<rparr>"
  obtain r st1 where w: "getTokenFromWeb env ?c st = (r, st1)" by (cases "getTokenFromWeb env ?c st")
  have t1: "trace st1 = trace st @ [Authorization ''http://localhost:8080/oauth2/callback'']"
    using getTokenFromWeb_trace [of env ?c st] w by simp
  show ?thesis
  proof (cases r)
    case (Return tok)
    obtain r2 st2 where s: "saveToken env ''token.json'' tok st1 = (r2, st2)"
      by (cases "saveToken env ''token.json'' tok st1")
    have t2: "trace st2 = trace st1 @ [Stdout (''Saving credential file to: '' @ ''token.json'' @ [CHR 0x0A])]"
      using saveToken_trace [of env "''token.json''" tok st1] s by simp
    have "snd (getClient env config st) = st2"
      using assms w Return s by (cases r2) (simp_all add: getClient_def Let_def)
    then show ?thesis using t1 t2 by simp
  next
    case (Fatal msg)
    then have "snd (getClient env config st) = st1"
      using assms w by (simp add: getClient_def Let_def)
    then show ?thesis using t1 by simp
  next
    case (Panic msg)
    then have "snd (getClient env config st) = st1"
      using assms w by (simp add: getClient_def Let_def)
    then show ?thesis using t1 by simp
  next
    case NoResponse
    then have "snd (getClient env config st) = st1"
      using assms w by (simp add: getClient_def Let_def)
    then show ?thesis using t1 by simp
  qed
qed

text \<open>
  Claim C6, as amended. When the token file can be opened and its content decodes
  without error, \<^verbatim>\<open>getClient\<close> returns the decoded credential, whatever its expiry, and
  changes nothing: the authorization flow is not entered. When the file is absent, cannot
  be opened, or its content does not decode, the authorization flow is entered once.
\<close>

theorem getClient_token_file:
  "(files st ''token.json'' = Some content \<and> \<not> unreadable env ''token.json'' \<and>
      jsonDecodeToken env content = (tok, None) \<longrightarrow>
      getClient env config st = (Return tok, st))
   \<and> ((files st ''token.json'' = None \<or> unreadable env ''token.json'' \<or>
       (files st ''token.json'' = Some content \<and> jsonDecodeToken env content = (tok, Some err))) \<longrightarrow>
      filter is_Authorization (trace (snd (getClient env config st))) =
        filter is_Authorization (trace st) @ [Authorization ''http://localhost:8080/oauth2/callback''])"
proof (intro conjI impI)
  assume "files st ''token.json'' = Some content \<and> \<not> unreadable env ''token.json'' \<and>
      jsonDecodeToken env content = (tok, None)"
  then show "getClient env config st = (Return tok, st)"
    using getClient_saved by blast
next
  assume a: "files st ''token.json'' = None \<or> unreadable env ''token.json'' \<or>
       (files st ''token.json'' = Some content \<and> jsonDecodeToken env content = (tok, Some err))"
  have "snd (tokenFromFile env st ''token.json'') \<noteq> None"
    using a by (auto simp: tokenFromFile_ok)
  then show "filter is_Authorization (trace (snd (getClient env config st))) =
        filter is_Authorization (trace st) @ [Authorization ''http://localhost:8080/oauth2/callback'']"
    by (rule getClient_flow)
qed


theorem getClient_token_file_witness:
  "getClient quietEnv \<lparr>ClientID = [], ClientSecret = [], RedirectURL = []\<rparr>
      (emptyState\<lparr>files := [''token.json'' \<mapsto> ''{}'']\<rparr>)
     = (Return noToken, emptyState\<lparr>files := [''token.json'' \<mapsto> ''{}'']\<rparr>)
   \<and> filter is_Authorization
        (trace (snd (getClient quietEnv \<lparr>ClientID = [], ClientSecret = [], RedirectURL = []\<rparr> emptyState)))
     = [Authorization ''http://localhost:8080/oauth2/callback'']"
  using getClient_token_file [where st = "emptyState\<lparr>files := [''token.json'' \<mapsto> ''{}'']\<rparr>"
      and content = "''{}''" and env = quietEnv and tok = noToken and err = ErrNotExist
      and config = "\<lparr>ClientID = [], ClientSecret = [], RedirectURL = []\<rparr>"]
    getClient_token_file [where st = emptyState
      and content = "''{}''" and env = quietEnv and tok = noToken and err = ErrNotExist
      and config = "\<lparr>ClientID = [], ClientSecret = [], RedirectURL = []\<rparr>"]
  by (simp add: emptyState_def quietEnv_def)

text \<open>
  Claim C6 as stated fails: a token file that is present but empty (the JSON decoder
  answers with the error EOF) sends \<^verbatim>\<open>getClient\<close> into the authorization flow.
\<close>

theorem getClient_token_file_counterexample:
  "files (emptyState\<lparr>files := [''token.json'' \<mapsto> []]\<rparr>) ''token.json'' = Some []
   \<and> trace (snd (getClient
        (quietEnv\<lparr>jsonDecodeToken :=
           \<lambda>content. (noToken, if content = [] then Some (Error ''EOF'') else None)\<rparr>)
        \<lparr>ClientID = [], ClientSecret = [], RedirectURL = []\<rparr>
        (emptyState\<lparr>files := [''token.json'' \<mapsto> []]\<rparr>)))
     = [Authorization ''http://localhost:8080/oauth2/callback'',
        Stdout (''Saving credential file to: token.json'' @ [CHR 0x0A])]"
  by (simp add: emptyState_def quietEnv_def getClient_def tokenFromFile_def os_ReadFile_def
      getTokenFromWeb_def saveToken_def emit_def Let_def)

lemma getClient_after_flow:
  assumes "snd (tokenFromFile env st ''token.json'') \<noteq> None"
    and "webAuthorization env (config\<lparr>RedirectURL := ''http://localhost:8080/oauth2/callback''\<rparr>) = Inr tok"
    and "\<not> unwritable env ''token.json''"
  shows "fst (getClient env config st) = Return tok"
proof -
  let ?c = "config\<lparr>RedirectURL := ''http://localhost:8080/oauth2/callback''\<rparr>"
  let ?st1 = "emit (Authorization ''http://localhost:8080/oauth2/callback'') st"
  have w: "getTokenFromWeb env ?c st = (Return tok, ?st1)"
    using assms(2) by (simp add: getTokenFromWeb_def Let_def)
  obtain r2 st2 where s: "saveToken env ''token.json'' tok ?st1 = (r2, st2)"
    by (cases "saveToken env ''token.json'' tok ?st1")
  have "r2 = Return ()"
    using saveToken_result [of env "''token.json''" tok ?st1] s assms(3) by simp
  then show ?thesis
    using assms(1) w s by (simp add: getClient_def Let_def)
qed

text \<open>
  Claim C10. \<^verbatim>\<open>saveToken\<close> ends the process exactly when the token file cannot be
  opened for writing. When the file opens, it returns normally even if encoding the
  credential or writing it fails: the file is then left empty, nothing but the line on
  standard output is printed, and \<^verbatim>\<open>getClient\<close> goes on with the new credential.
\<close>

theorem saveToken_fatal_only_on_open:
  "((\<exists>msg. fst (saveToken env path token st) = Fatal msg) \<longleftrightarrow> unwritable env path)
   \<and> (\<not> unwritable env path \<longrightarrow> fst (saveToken env path token st) = Return ())
   \<and> (\<not> unwritable env path \<and> (jsonEncodeToken env token = Inl err \<or> writeFails env path) \<longrightarrow>
        files (snd (saveToken env path token st)) path = Some [])
   \<and> trace (snd (saveToken env path token st)) =
        trace st @ [Stdout (''Saving credential file to: '' @ path @ [CHR 0x0A])]
   \<and> (snd (tokenFromFile env st ''token.json'') \<noteq> None \<and>
        webAuthorization env (config\<lparr>RedirectURL := ''http://localhost:8080/oauth2/callback''\<rparr>) = Inr tok \<and>
        \<not> unwritable env ''token.json'' \<longrightarrow>
        fst (getClient env config st) = Return tok)"
proof (intro conjI impI)
  show "(\<exists>msg. fst (saveToken env path token st) = Fatal msg) \<longleftrightarrow> unwritable env path"
    by (simp add: saveToken_result)
  show "fst (saveToken env path token st) = Return ()" if "\<not> unwritable env path"
    using that by (simp add: saveToken_result)
  show "files (snd (saveToken env path token st)) path = Some []"
    if "\<not> unwritable env path \<and> (jsonEncodeToken env token = Inl err \<or> writeFails env path)"
    using that by (auto simp: saveToken_def Let_def emit_def split: sum.splits)
  show "trace (snd (saveToken env path token st)) =
        trace st @ [Stdout (''Saving credential file to: '' @ path @ [CHR 0x0A])]"
    by (rule saveToken_trace)
  show "fst (getClient env config st) = Return tok"
    if "snd (tokenFromFile env st ''token.json'') \<noteq> None \<and>
        webAuthorization env (config\<lparr>RedirectURL := ''http://localhost:8080/oauth2/callback''\<rparr>) = Inr tok \<and>
        \<not> unwritable env ''token.json''"
    using that getClient_after_flow by blast
qed

theorem saveToken_fatal_only_on_open_witness:
  "fst (saveToken (quietEnv\<lparr>jsonEncodeToken := \<lambda>tok. Inl (Error ''json: unsupported value'')\<rparr>)
          ''token.json'' noToken emptyState) = Return ()
   \<and> files (snd (saveToken (quietEnv\<lparr>jsonEncodeToken := \<lambda>tok. Inl (Error ''json: unsupported value'')\<rparr>)
          ''token.json'' noToken emptyState)) ''token.json'' = Some []
   \<and> fst (getClient (quietEnv\<lparr>jsonEncodeToken := \<lambda>tok. Inl (Error ''json: unsupported value'')\<rparr>)
          \<lparr>ClientID = [], ClientSecret = [], RedirectURL = []\<rparr> emptyState) = Return noToken
   \<and> fst (saveToken (quietEnv\<lparr>unwritable := \<lambda>name. True\<rparr>) ''token.json'' noToken emptyState)
        = Fatal ''Unable to cache oauth token: permission denied''"
proof -
  let ?env = "quietEnv\<lparr>jsonEncodeToken := \<lambda>tok. Inl (Error ''json: unsupported value'')\<rparr>"
  let ?cfg = "\<lparr>ClientID = [], ClientSecret = [], RedirectURL = []\<rparr>"
  have t: "snd (tokenFromFile ?env emptyState ''token.json'') \<noteq> None"
    by (simp add: tokenFromFile_def os_ReadFile_def emptyState_def)
  have f: "fst (saveToken (quietEnv\<lparr>unwritable := \<lambda>name. True\<rparr>) ''token.json'' noToken emptyState)
        = Fatal ''Unable to cache oauth token: permission denied''"
    by (simp add: saveToken_result)
  show ?thesis
    using t f saveToken_fatal_only_on_open [where env = ?env and path = "''token.json''"
      and token = noToken and st = emptyState and err = "Error ''json: unsupported value''"
      and config = ?cfg and tok = noToken]
    by (simp add: quietEnv_def)
qed

section \<open>Properties of the attachment extraction\<close>

lemma not_digit_dot: "\<not> isDigit CHR ''.''"
  by (simp add: isDigit_def)

lemma invoiceFilename_iff:
  "invoiceFilenameRegex_MatchString s \<longleftrightarrow>
     (\<exists>ds. ds \<noteq> [] \<and> list_all isDigit ds \<and> s = ds @ ''.pdf'')"
proof
  assume m: "invoiceFilenameRegex_MatchString s"
  let ?ds = "takeWhile isDigit s"
  have d: "dropWhile isDigit s = ''.pdf''"
    using m by (simp add: invoiceFilenameRegex_MatchString_def)
  have "s = ?ds @ ''.pdf''"
    using takeWhile_dropWhile_id [of isDigit s] unfolding d by (rule sym)
  moreover have "list_all isDigit ?ds" unfolding list_all_iff by (auto dest: set_takeWhileD)
  moreover have "?ds \<noteq> []" using m by (simp add: invoiceFilenameRegex_MatchString_def)
  ultimately show "\<exists>ds. ds \<noteq> [] \<and> list_all isDigit ds \<and> s = ds @ ''.pdf''" by blast
next
  assume "\<exists>ds. ds \<noteq> [] \<and> list_all isDigit ds \<and> s = ds @ ''.pdf''"
  then obtain ds where ds: "ds \<noteq> []" "list_all isDigit ds" and s: "s = ds @ ''.pdf''" by blast
  have "takeWhile isDigit (ds @ ''.pdf'') = ds"
    using ds(2) by (induction ds) (simp_all add: not_digit_dot)
  moreover have "dropWhile isDigit (ds @ ''.pdf'') = ''.pdf''"
    using ds(2) by (induction ds) (simp_all add: not_digit_dot)
  ultimately show "invoiceFilenameRegex_MatchString s"
    using ds(1) s by (simp add: invoiceFilenameRegex_MatchString_def)
qed

lemma selectedPart_code:
  "selectedPart part \<longleftrightarrow>
     MimeType part = ''application/pdf'' \<and> invoiceFilenameRegex_MatchString (Filename part)"
  by (simp add: selectedPart_def invoiceFilename_iff)

lemma saveAttachment_trace:
  "trace (snd (saveAttachment env name attachMsg st)) =
     trace st @ (case base64_URLEncoding_DecodeString (Data attachMsg) of
                   Inl err \<Rightarrow> []
                 | Inr content \<Rightarrow> [WriteFile name content])"
  by (simp add: saveAttachment_def os_WriteFile_def emit_def Let_def split: sum.splits)

lemma processPart_unselected:
  "\<not> selectedPart part \<Longrightarrow> processPart env mId prefix part st = (Return (), st)"
  by (auto simp: selectedPart_code processPart_def)

lemma processPart_selected:
  assumes "selectedPart part" "Body part = Some body"
  shows "fst (processPart env mId prefix part st) = Return ()"
    and "\<exists>evs. trace (snd (processPart env mId prefix part st)) =
           trace st @ AttachmentsGet mId (AttachmentId body) # evs \<and>
           filter is_AttachmentsGet evs = [] \<and>
           filter is_WriteFile evs =
             (case attachmentContent env mId part of
                None \<Rightarrow> []
              | Some content \<Rightarrow> [WriteFile (prefix @ ''-'' @ Filename part) content])"
  using assms
  by (auto simp: selectedPart_code processPart_def attachmentContent_def saveAttachment_def
      os_WriteFile_def emit_def Let_def split: sum.splits)

lemma processPart_persisted:
  assumes "selectedPart part" "attachmentContent env mId part = Some content"
    "\<not> unwritable env (prefix @ ''-'' @ Filename part)"
    "\<not> writeFails env (prefix @ ''-'' @ Filename part)"
  shows "files (snd (processPart env mId prefix part st)) (prefix @ ''-'' @ Filename part) = Some content"
  using assms
  by (auto simp: selectedPart_code processPart_def attachmentContent_def saveAttachment_def
      os_WriteFile_def emit_def Let_def split: sum.splits option.splits)

lemma processPart_events:
  assumes "selectedPart part \<longrightarrow> Body part \<noteq> None"
  shows "fst (processPart env mId prefix part st) = Return () \<and>
    filter is_AttachmentsGet (trace (snd (processPart env mId prefix part st))) =
      filter is_AttachmentsGet (trace st) @ fetchesOf mId part \<and>
    filter is_WriteFile (trace (snd (processPart env mId prefix part st))) =
      filter is_WriteFile (trace st) @ writesOf env mId prefix part"
proof (cases "selectedPart part")
  case False
  then show ?thesis by (simp add: processPart_unselected fetchesOf_def writesOf_def)
next
  case True
  then obtain body where b: "Body part = Some body" using assms by auto
  from processPart_selected [OF True b, of env mId prefix st] show ?thesis
    using True b by (auto simp: fetchesOf_def writesOf_def)
qed

lemma processParts_events:
  assumes "list_all (\<lambda>part. selectedPart part \<longrightarrow> Body part \<noteq> None) parts"
  shows "fst (processParts env mId prefix parts st) = Return () \<and>
    filter is_AttachmentsGet (trace (snd (processParts env mId prefix parts st))) =
      filter is_AttachmentsGet (trace st) @ concat (map (fetchesOf mId) parts) \<and>
    filter is_WriteFile (trace (snd (processParts env mId prefix parts st))) =
      filter is_WriteFile (trace st) @ concat (map (writesOf env mId prefix) parts)"
  using assms
proof (induction parts arbitrary: st)
  case Nil
  then show ?case by simp
next
  case (Cons part parts)
  obtain r st1 where p: "processPart env mId prefix part st = (r, st1)"
    by (cases "processPart env mId prefix part st")
  have e: "r = Return () \<and>
    filter is_AttachmentsGet (trace st1) = filter is_AttachmentsGet (trace st) @ fetchesOf mId part \<and>
    filter is_WriteFile (trace st1) = filter is_WriteFile (trace st) @ writesOf env mId prefix part"
    using processPart_events [of part env mId prefix st] Cons.prems p by simp
  have ih: "fst (processParts env mId prefix parts st1) = Return () \<and>
    filter is_AttachmentsGet (trace (snd (processParts env mId prefix parts st1))) =
      filter is_AttachmentsGet (trace st1) @ concat (map (fetchesOf mId) parts) \<and>
    filter is_WriteFile (trace (snd (processParts env mId prefix parts st1))) =
      filter is_WriteFile (trace st1) @ concat (map (writesOf env mId prefix) parts)"
    using Cons.IH [of st1] Cons.prems by simp
  show ?case using p e ih by simp
qed


lemma processPart_nested:
  "processPart env mId prefix (MessagePart mime fname hdrs body nested) st =
   processPart env mId prefix (MessagePart mime fname hdrs body []) st"
  by (simp add: processPart_def Let_def split: option.splits sum.splits prod.splits)

text \<open>
  Claim C5. The loop over the parts looks at the top-level parts only, and never at the
  parts nested in them. A part that is not selected (its MIME type is not exactly
  \<^verbatim>\<open>application/pdf\<close>, or its filename is not digits followed by \<^verbatim>\<open>.pdf\<close>) is neither
  fetched nor written. For a selected part the attachment is requested; its content is
  written to the file named by the prefix and the filename exactly when the provider
  returns it and it decodes, and the file holds it when the write succeeds. Over a whole
  message, the requests and the writes are those of the selected parts, in order.
  \<^verbatim>\<open>187008571923.pdf\<close> matches the pattern; \<^verbatim>\<open>invoice-187008571923.pdf\<close> and
  \<^verbatim>\<open>187008571923.txt\<close> do not.
\<close>

theorem attachment_selection:
  "(\<not> selectedPart part \<longrightarrow> processPart env mId prefix part st = (Return (), st))
   \<and> (selectedPart part \<and> Body part = Some body \<longrightarrow>
        (\<exists>evs. trace (snd (processPart env mId prefix part st)) =
           trace st @ AttachmentsGet mId (AttachmentId body) # evs))
   \<and> (selectedPart part \<and> attachmentContent env mId part = Some content \<and>
        \<not> unwritable env (prefix @ ''-'' @ Filename part) \<and>
        \<not> writeFails env (prefix @ ''-'' @ Filename part) \<longrightarrow>
        files (snd (processPart env mId prefix part st)) (prefix @ ''-'' @ Filename part) =
          Some content)
   \<and> (list_all (\<lambda>part. selectedPart part \<longrightarrow> Body part \<noteq> None) parts \<longrightarrow>
        fst (processParts env mId prefix parts st) = Return () \<and>
        filter is_AttachmentsGet (trace (snd (processParts env mId prefix parts st))) =
          filter is_AttachmentsGet (trace st) @ concat (map (fetchesOf mId) parts) \<and>
        filter is_WriteFile (trace (snd (processParts env mId prefix parts st))) =
          filter is_WriteFile (trace st) @ concat (map (writesOf env mId prefix) parts))
   \<and> processPart env mId prefix (MessagePart mime fname hdrs bodyOpt nested) st =
        processPart env mId prefix (MessagePart mime fname hdrs bodyOpt []) st
   \<and> invoiceFilenameRegex_MatchString ''187008571923.pdf''
   \<and> \<not> invoiceFilenameRegex_MatchString ''invoice-187008571923.pdf''
   \<and> \<not> invoiceFilenameRegex_MatchString ''187008571923.txt''"
proof (intro conjI impI)
  show "processPart env mId prefix part st = (Return (), st)" if "\<not> selectedPart part"
    using that by (rule processPart_unselected)
  show "\<exists>evs. trace (snd (processPart env mId prefix part st)) =
           trace st @ AttachmentsGet mId (AttachmentId body) # evs"
    if "selectedPart part \<and> Body part = Some body"
    using that processPart_selected(2) [of part body env mId prefix st] by blast
  show "files (snd (processPart env mId prefix part st)) (prefix @ ''-'' @ Filename part) =
          Some content"
    if "selectedPart part \<and> attachmentContent env mId part = Some content \<and>
        \<not> unwritable env (prefix @ ''-'' @ Filename part) \<and>
        \<not> writeFails env (prefix @ ''-'' @ Filename part)"
    using that processPart_persisted by blast
  show "fst (processParts env mId prefix parts st) = Return ()"
    and "filter is_AttachmentsGet (trace (snd (processParts env mId prefix parts st))) =
          filter is_AttachmentsGet (trace st) @ concat (map (fetchesOf mId) parts)"
    and "filter is_WriteFile (trace (snd (processParts env mId prefix parts st))) =
          filter is_WriteFile (trace st) @ concat (map (writesOf env mId prefix) parts)"
    if "list_all (\<lambda>part. selectedPart part \<longrightarrow> Body part \<noteq> None) parts"
    using processParts_events [OF that, of env mId prefix st] by simp_all
  show "processPart env mId prefix (MessagePart mime fname hdrs bodyOpt nested) st =
        processPart env mId prefix (MessagePart mime fname hdrs bodyOpt []) st"
    by (rule processPart_nested)
  show "invoiceFilenameRegex_MatchString ''187008571923.pdf''"
    by (simp add: invoiceFilenameRegex_MatchString_def isDigit_def)
  show "\<not> invoiceFilenameRegex_MatchString ''invoice-187008571923.pdf''"
    by (simp add: invoiceFilenameRegex_MatchString_def isDigit_def)
  show "\<not> invoiceFilenameRegex_MatchString ''187008571923.txt''"
    by (simp add: invoiceFilenameRegex_MatchString_def isDigit_def)
qed

lemma selected_pdfPart: "selectedPart pdfPart"
  by (simp add: selectedPart_code pdfPart_def invoiceFilenameRegex_MatchString_def isDigit_def)

lemma unselected_mixedPart: "\<not> selectedPart mixedPart"
  by (simp add: selectedPart_code mixedPart_def)

lemma content_pdfPart: "attachmentContent pdfEnv ''m1'' pdfPart = Some ''ABC''"
  by (simp add: attachmentContent_def pdfPart_def pdfEnv_def quietEnv_def decode_QUJD)

theorem attachment_selection_witness:
  "selectedPart pdfPart \<and> \<not> selectedPart mixedPart
   \<and> filter is_AttachmentsGet (trace (snd (processParts pdfEnv ''m1'' ''p'' [mixedPart, pdfPart] emptyState)))
       = [AttachmentsGet ''m1'' ''att1'']
   \<and> filter is_WriteFile (trace (snd (processParts pdfEnv ''m1'' ''p'' [mixedPart, pdfPart] emptyState)))
       = [WriteFile ''p-187008571923.pdf'' ''ABC'']
   \<and> files (snd (processPart pdfEnv ''m1'' ''p'' pdfPart emptyState)) ''p-187008571923.pdf'' = Some ''ABC''
   \<and> processPart pdfEnv ''m1'' ''p'' mixedPart emptyState = (Return (), emptyState)"
proof -
  have b: "Body pdfPart = Some \<lparr>AttachmentId = ''att1'', Data = []\<rparr>" "Body mixedPart = None"
    "Filename pdfPart = ''187008571923.pdf''"
    by (simp_all add: pdfPart_def mixedPart_def)
  have w: "\<not> unwritable pdfEnv name" "\<not> writeFails pdfEnv name" for name
    by (simp_all add: pdfEnv_def quietEnv_def)
  have l: "list_all (\<lambda>part. selectedPart part \<longrightarrow> Body part \<noteq> None) [mixedPart, pdfPart]"
    by (simp add: b unselected_mixedPart)
  have t: "trace emptyState = []" by (simp add: emptyState_def)
  show ?thesis
    using selected_pdfPart unselected_mixedPart content_pdfPart b w l t
      attachment_selection [where part = pdfPart and env = pdfEnv and mId = "''m1''"
        and prefix = "''p''" and st = emptyState
        and body = "\<lparr>AttachmentId = ''att1'', Data = []\<rparr>" and content = "''ABC''"
        and parts = "[mixedPart, pdfPart]"]
      attachment_selection [where part = mixedPart and env = pdfEnv and mId = "''m1''"
        and prefix = "''p''" and st = emptyState
        and body = "\<lparr>AttachmentId = ''att1'', Data = []\<rparr>" and content = "''ABC''"
        and parts = "[]"]
    by (simp add: fetchesOf_def writesOf_def)
qed

section \<open>Properties of the scan\<close>

lemma silent_simps:
  "silent P \<Longrightarrow> \<not> P (AttachmentsGet a b)"
  "silent P \<Longrightarrow> \<not> P (WriteFile a b)"
  "silent P \<Longrightarrow> \<not> P (LogPrintf a)"
  by (simp_all add: silent_def)

lemma silent_instances: "silent is_MessagesList" "silent isFullGet" "silent is_Stdout"
  by (simp_all add: silent_def isFullGet_def)

lemma saveAttachment_silent:
  "silent P \<Longrightarrow> filter P (trace (snd (saveAttachment env name attachMsg st))) = filter P (trace st)"
  by (simp add: saveAttachment_trace silent_simps split: sum.splits)

lemma saveRawMessage_trace:
  "trace (snd (saveRawMessage env name rawContent st)) =
     trace st @ (case base64_URLEncoding_DecodeString rawContent of
                   Inl err \<Rightarrow> []
                 | Inr content \<Rightarrow> [WriteFile name content])"
  by (simp add: saveRawMessage_def os_WriteFile_def emit_def Let_def split: sum.splits)

lemma saveRawMessage_silent:
  "silent P \<Longrightarrow> filter P (trace (snd (saveRawMessage env name rawContent st))) = filter P (trace st)"
  by (simp add: saveRawMessage_trace silent_simps split: sum.splits)

lemma processPart_silent:
  assumes "silent P"
  shows "filter P (trace (snd (processPart env mId prefix part st))) = filter P (trace st)"
proof -
  have s: "filter P (trace (snd (saveAttachment env name attachMsg st'))) = filter P (trace st')"
    for name attachMsg st'
    using assms by (rule saveAttachment_silent)
  show ?thesis
    unfolding processPart_def Let_def
    apply (simp split: option.splits sum.splits prod.splits add: emit_def silent_simps [OF assms])
    apply (intro conjI impI allI)
    subgoal for body attachMsg err st2
      using s [of "prefix @ ''-'' @ Filename part" attachMsg
          "st\<lparr>trace := trace st @ [AttachmentsGet mId (AttachmentId body)]\<rparr>"]
      by (simp add: silent_simps [OF assms])
    subgoal for body attachMsg st2
      using s [of "prefix @ ''-'' @ Filename part" attachMsg
          "st\<lparr>trace := trace st @ [AttachmentsGet mId (AttachmentId body)]\<rparr>"]
      by (simp add: silent_simps [OF assms])
    done
qed


lemma processParts_silent:
  assumes "silent P"
  shows "filter P (trace (snd (processParts env mId prefix parts st))) = filter P (trace st)"
proof (induction parts arbitrary: st)
  case Nil
  then show ?case by simp
next
  case (Cons part parts)
  obtain r st1 where p: "processPart env mId prefix part st = (r, st1)"
    by (cases "processPart env mId prefix part st")
  have e: "filter P (trace st1) = filter P (trace st)"
    using processPart_silent [OF assms, of env mId prefix part st] p by simp
  show ?case
  proof (cases r)
    case (Return u)
    then show ?thesis using p e Cons.IH [of st1] by simp
  qed (use p e in simp_all)
qed

lemma messageOk_Inr:
  assumes "messageOk env mId" "getFull env mId = Inr msg"
  obtains payload where "Payload msg = Some payload"
    and "list_all (\<lambda>part. selectedPart part \<longrightarrow> Body part \<noteq> None) (Parts payload)"
  using assms by (auto simp: messageOk_def split: option.splits)

text \<open>What one round of the loop over the messages does to the trace and to the counter.\<close>

lemma processMessage_effect:
  assumes ok: "messageOk env (MessageId m)"
  shows "\<exists>idx1 st1. processMessage env configuration messageIndex m st = (Return idx1, st1) \<and>
     (idx1 = messageIndex \<or> idx1 = messageIndex + 1) \<and>
     filter is_MessagesList (trace st1) = filter is_MessagesList (trace st) \<and>
     filter isFullGet (trace st1) = filter isFullGet (trace st) @ [MessagesGet (MessageId m) ''full'']"
proof (cases "getFull env (MessageId m)")
  case (Inl err)
  then show ?thesis
    by (simp add: processMessage_def Let_def emit_def isFullGet_def)
next
  case (Inr msg)
  from messageOk_Inr [OF ok Inr] obtain payload where pl: "Payload msg = Some payload"
    and bodies: "list_all (\<lambda>part. selectedPart part \<longrightarrow> Body part \<noteq> None) (Parts payload)"
    by blast
  define date where "date = formatDate (localZone env) (InternalDate msg)"
  define sender where "sender = fst (scanHeaders (Headers payload) ([], []))"
  define subject where "subject = snd (scanHeaders (Headers payload) ([], []))"
  define prefix where "prefix = filenamePrefix configuration date (MessageId m) subject"
  define st2 where "st2 = emit (Stdout (progressLine messageIndex (MessageId m) date sender subject))
     (emit (MessagesGet (MessageId m) ''full'') st)"
  obtain r3 st3 where pp: "processParts env (MessageId m) prefix (Parts payload) st2 = (r3, st3)"
    by (cases "processParts env (MessageId m) prefix (Parts payload) st2")
  have r3: "r3 = Return ()"
    using processParts_events [OF bodies, of env "MessageId m" prefix st2] pp by simp
  have l3: "filter is_MessagesList (trace st3) = filter is_MessagesList (trace st)"
    using processParts_silent [OF silent_instances(1), of env "MessageId m" prefix "Parts payload" st2] pp
    by (simp add: st2_def emit_def)
  have f3: "filter isFullGet (trace st3) = filter isFullGet (trace st) @ [MessagesGet (MessageId m) ''full'']"
    using processParts_silent [OF silent_instances(2), of env "MessageId m" prefix "Parts payload" st2] pp
    by (simp add: st2_def emit_def isFullGet_def)
  define st4 where "st4 = emit (MessagesGet (MessageId m) ''raw'') st3"
  have l4: "filter is_MessagesList (trace st4) = filter is_MessagesList (trace st)"
    and f4: "filter isFullGet (trace st4) = filter isFullGet (trace st) @ [MessagesGet (MessageId m) ''full'']"
    using l3 f3 by (simp_all add: st4_def emit_def isFullGet_def)
  have unfold: "processMessage env configuration messageIndex m st =
      (case getRaw env (MessageId m) of
         Inl err \<Rightarrow>
           (Return messageIndex,
            emit (LogPrintf (''Unable to retrieve raw message '' @ MessageId m @ '': '' @ errorText err)) st4)
       | Inr rawMsg \<Rightarrow>
           (case saveRawMessage env (prefix @ ''.eml'') (Raw rawMsg) st4 of
              (Some err, st5) \<Rightarrow>
                (Return (messageIndex + 1),
                 emit (LogPrintf (''Error saving message '' @ MessageId m @ '': '' @ errorText err)) st5)
            | (None, st5) \<Rightarrow> (Return (messageIndex + 1), st5)))"
    using Inr pl pp r3
    by (simp add: processMessage_def Let_def date_def sender_def subject_def prefix_def st2_def st4_def
        split: sum.splits prod.splits option.splits)
  show ?thesis
  proof (cases "getRaw env (MessageId m)")
    case (Inl err)
    then show ?thesis using unfold l4 f4 by (simp add: emit_def isFullGet_def)
  next
    case (Inr rawMsg)
    obtain e5 st5 where sv: "saveRawMessage env (prefix @ ''.eml'') (Raw rawMsg) st4 = (e5, st5)"
      by (cases "saveRawMessage env (prefix @ ''.eml'') (Raw rawMsg) st4")
    have l5: "filter is_MessagesList (trace st5) = filter is_MessagesList (trace st)"
      using saveRawMessage_silent [OF silent_instances(1), of env "prefix @ ''.eml''" "Raw rawMsg" st4] sv l4
      by simp
    have f5: "filter isFullGet (trace st5) = filter isFullGet (trace st) @ [MessagesGet (MessageId m) ''full'']"
      using saveRawMessage_silent [OF silent_instances(2), of env "prefix @ ''.eml''" "Raw rawMsg" st4] sv f4
      by simp
    show ?thesis
      using unfold Inr sv l5 f5 by (cases e5) (simp_all add: emit_def isFullGet_def)
  qed
qed

lemma processMessages_effect:
  assumes "list_all (\<lambda>m. messageOk env (MessageId m)) ms"
  shows "\<exists>idx1 st1. processMessages env configuration messageIndex ms st = (Return idx1, st1) \<and>
     filter is_MessagesList (trace st1) = filter is_MessagesList (trace st) \<and>
     filter isFullGet (trace st1) =
       filter isFullGet (trace st) @ map (\<lambda>m. MessagesGet (MessageId m) ''full'') ms"
  using assms
proof (induction ms arbitrary: messageIndex st)
  case Nil
  then show ?case by simp
next
  case (Cons m ms)
  from Cons.prems have ok: "messageOk env (MessageId m)"
    and rest: "list_all (\<lambda>m. messageOk env (MessageId m)) ms" by simp_all
  from processMessage_effect [OF ok, of configuration messageIndex st]
  obtain idx1 st1 where p: "processMessage env configuration messageIndex m st = (Return idx1, st1)"
    and l1: "filter is_MessagesList (trace st1) = filter is_MessagesList (trace st)"
    and f1: "filter isFullGet (trace st1) = filter isFullGet (trace st) @ [MessagesGet (MessageId m) ''full'']"
    by blast
  from Cons.IH [OF rest, of idx1 st1]
  obtain idx2 st2 where q: "processMessages env configuration idx1 ms st1 = (Return idx2, st2)"
    and l2: "filter is_MessagesList (trace st2) = filter is_MessagesList (trace st1)"
    and f2: "filter isFullGet (trace st2) =
       filter isFullGet (trace st1) @ map (\<lambda>m. MessagesGet (MessageId m) ''full'') ms"
    by blast
  show ?case using p q l1 l2 f1 f2 by simp
qed

text \<open>One round of the outer loop on a page that holds messages.\<close>

lemma scanLoop_round:
  assumes ne: "Messages r \<noteq> []"
    and ok: "list_all (\<lambda>m. messageOk env (MessageId m)) (Messages r)"
  shows "\<exists>idx1 st1.
     scanLoop env configuration q messageIndex pageToken (Inr r # later) st =
       (if NextPageToken r = [] then (Return (), later, st1)
        else scanLoop env configuration q idx1 (NextPageToken r) later st1) \<and>
     filter is_MessagesList (trace st1) =
       filter is_MessagesList (trace st) @
         [MessagesList q (if pageToken \<noteq> [] then Some pageToken else None)] \<and>
     filter isFullGet (trace st1) =
       filter isFullGet (trace st) @ map (\<lambda>m. MessagesGet (MessageId m) ''full'') (Messages r)"
proof -
  let ?st0 = "emit (MessagesList q (if pageToken \<noteq> [] then Some pageToken else None)) st"
  from processMessages_effect [OF ok, of configuration messageIndex ?st0]
  obtain idx1 st1 where p: "processMessages env configuration messageIndex (Messages r) ?st0 = (Return idx1, st1)"
    and l: "filter is_MessagesList (trace st1) = filter is_MessagesList (trace ?st0)"
    and f: "filter isFullGet (trace st1) =
       filter isFullGet (trace ?st0) @ map (\<lambda>m. MessagesGet (MessageId m) ''full'') (Messages r)"
    by blast
  have "scanLoop env configuration q messageIndex pageToken (Inr r # later) st =
       (if NextPageToken r = [] then (Return (), later, st1)
        else scanLoop env configuration q idx1 (NextPageToken r) later st1)"
    using ne p by (simp add: Let_def)
  moreover have "filter is_MessagesList (trace st1) =
       filter is_MessagesList (trace st) @
         [MessagesList q (if pageToken \<noteq> [] then Some pageToken else None)]"
    using l by (simp add: emit_def)
  moreover have "filter isFullGet (trace st1) =
       filter isFullGet (trace st) @ map (\<lambda>m. MessagesGet (MessageId m) ''full'') (Messages r)"
    using f by (simp add: emit_def isFullGet_def)
  ultimately show ?thesis by blast
qed

lemma scanLoop_empty_page:
  "scanLoop env configuration q messageIndex pageToken
     (Inr \<lparr>Messages = [], NextPageToken = token\<rparr> # later) st =
   (Return (), later,
    emit (MessagesList q (if pageToken \<noteq> [] then Some pageToken else None)) st)"
  by (simp add: Let_def)

text \<open>
  Claim C2. Given the three list responses with two, two and no messages and the
  continuation tokens \<open>A\<close>, \<open>B\<close> (both not empty) and the empty token, the loop sends
  exactly three list requests, the first without a page token, the second with \<open>A\<close>, the
  third with \<open>B\<close>; it processes the four messages in the order of the responses; and it
  returns without asking for any later response. A first page without messages ends the
  loop at once: one request, no message processed, normal return. The hypothesis on
  the messages excludes the answers on which the Go code panics.
\<close>

theorem scanLoop_three_pages:
  "(A \<noteq> [] \<and> B \<noteq> [] \<and> list_all (\<lambda>m. messageOk env (MessageId m)) [m1, m2, m3, m4] \<longrightarrow>
      (\<exists>st1.
         scanLoop env configuration q messageIndex []
           (Inr \<lparr>Messages = [m1, m2], NextPageToken = A\<rparr> #
            Inr \<lparr>Messages = [m3, m4], NextPageToken = B\<rparr> #
            Inr \<lparr>Messages = [], NextPageToken = []\<rparr> # later) st
           = (Return (), later, st1) \<and>
         filter is_MessagesList (trace st1) =
           filter is_MessagesList (trace st) @
             [MessagesList q None, MessagesList q (Some A), MessagesList q (Some B)] \<and>
         filter isFullGet (trace st1) =
           filter isFullGet (trace st) @
             map (\<lambda>m. MessagesGet (MessageId m) ''full'') [m1, m2, m3, m4]))
   \<and> scanLoop env configuration q messageIndex []
         (Inr \<lparr>Messages = [], NextPageToken = token\<rparr> # later) st
       = (Return (), later, emit (MessagesList q None) st)"
proof (intro conjI impI)
  assume a: "A \<noteq> [] \<and> B \<noteq> [] \<and> list_all (\<lambda>m. messageOk env (MessageId m)) [m1, m2, m3, m4]"
  let ?p1 = "\<lparr>Messages = [m1, m2], NextPageToken = A\<rparr>"
  let ?p2 = "\<lparr>Messages = [m3, m4], NextPageToken = B\<rparr>"
  let ?p3 = "\<lparr>Messages = [], NextPageToken = []\<rparr>"
  have ok1: "list_all (\<lambda>m. messageOk env (MessageId m)) (Messages ?p1)"
    and ok2: "list_all (\<lambda>m. messageOk env (MessageId m)) (Messages ?p2)"
    using a by simp_all
  from scanLoop_round [of ?p1 env configuration q messageIndex "[]" "Inr ?p2 # Inr ?p3 # later" st] ok1 a
  obtain i1 s1 where
    r1: "scanLoop env configuration q messageIndex [] (Inr ?p1 # Inr ?p2 # Inr ?p3 # later) st =
           scanLoop env configuration q i1 A (Inr ?p2 # Inr ?p3 # later) s1"
    and l1: "filter is_MessagesList (trace s1) = filter is_MessagesList (trace st) @ [MessagesList q None]"
    and f1: "filter isFullGet (trace s1) =
       filter isFullGet (trace st) @ map (\<lambda>m. MessagesGet (MessageId m) ''full'') [m1, m2]"
    by auto
  from scanLoop_round [of ?p2 env configuration q i1 A "Inr ?p3 # later" s1] ok2 a
  obtain i2 s2 where
    r2: "scanLoop env configuration q i1 A (Inr ?p2 # Inr ?p3 # later) s1 =
           scanLoop env configuration q i2 B (Inr ?p3 # later) s2"
    and l2: "filter is_MessagesList (trace s2) = filter is_MessagesList (trace s1) @ [MessagesList q (Some A)]"
    and f2: "filter isFullGet (trace s2) =
       filter isFullGet (trace s1) @ map (\<lambda>m. MessagesGet (MessageId m) ''full'') [m3, m4]"
    by auto
  have r3: "scanLoop env configuration q i2 B (Inr ?p3 # later) s2 =
      (Return (), later, emit (MessagesList q (Some B)) s2)"
    using a by (simp add: scanLoop_empty_page)
  let ?s3 = "emit (MessagesList q (Some B)) s2"
  have "scanLoop env configuration q messageIndex [] (Inr ?p1 # Inr ?p2 # Inr ?p3 # later) st
      = (Return (), later, ?s3)"
    using r1 r2 r3 by simp
  moreover have "filter is_MessagesList (trace ?s3) =
      filter is_MessagesList (trace st) @
        [MessagesList q None, MessagesList q (Some A), MessagesList q (Some B)]"
    using l1 l2 by (simp add: emit_def)
  moreover have "filter isFullGet (trace ?s3) =
      filter isFullGet (trace st) @ map (\<lambda>m. MessagesGet (MessageId m) ''full'') [m1, m2, m3, m4]"
    using f1 f2 by (simp add: emit_def isFullGet_def)
  ultimately show "\<exists>st1.
         scanLoop env configuration q messageIndex []
           (Inr ?p1 # Inr ?p2 # Inr ?p3 # later) st
           = (Return (), later, st1) \<and>
         filter is_MessagesList (trace st1) =
           filter is_MessagesList (trace st) @
             [MessagesList q None, MessagesList q (Some A), MessagesList q (Some B)] \<and>
         filter isFullGet (trace st1) =
           filter isFullGet (trace st) @
             map (\<lambda>m. MessagesGet (MessageId m) ''full'') [m1, m2, m3, m4]"
    by blast
next
  show "scanLoop env configuration q messageIndex []
         (Inr \<lparr>Messages = [], NextPageToken = token\<rparr> # later) st
       = (Return (), later, emit (MessagesList q None) st)"
    by (simp add: scanLoop_empty_page)
qed


lemma messageOk_mailEnv: "messageOk mailEnv mId"
  by (simp add: messageOk_def mailEnv_def invoiceMessage_def)

theorem scanLoop_three_pages_witness:
  "fst (scanLoop mailEnv \<lparr>Contracts = Map.empty\<rparr> ''from:faturaedp@edp.pt has:attachment'' 0 []
      [Inr \<lparr>Messages = [listed ''m1'', listed ''m2''], NextPageToken = ''A''\<rparr>,
       Inr \<lparr>Messages = [listed ''m3'', listed ''m4''], NextPageToken = ''B''\<rparr>,
       Inr \<lparr>Messages = [], NextPageToken = []\<rparr>,
       Inl (Error ''a fourth request'')] emptyState) = Return ()
   \<and> fst (snd (scanLoop mailEnv \<lparr>Contracts = Map.empty\<rparr> ''from:faturaedp@edp.pt has:attachment'' 0 []
      [Inr \<lparr>Messages = [listed ''m1'', listed ''m2''], NextPageToken = ''A''\<rparr>,
       Inr \<lparr>Messages = [listed ''m3'', listed ''m4''], NextPageToken = ''B''\<rparr>,
       Inr \<lparr>Messages = [], NextPageToken = []\<rparr>,
       Inl (Error ''a fourth request'')] emptyState)) = [Inl (Error ''a fourth request'')]
   \<and> filter is_MessagesList (trace (snd (snd (scanLoop mailEnv \<lparr>Contracts = Map.empty\<rparr>
      ''from:faturaedp@edp.pt has:attachment'' 0 []
      [Inr \<lparr>Messages = [listed ''m1'', listed ''m2''], NextPageToken = ''A''\<rparr>,
       Inr \<lparr>Messages = [listed ''m3'', listed ''m4''], NextPageToken = ''B''\<rparr>,
       Inr \<lparr>Messages = [], NextPageToken = []\<rparr>,
       Inl (Error ''a fourth request'')] emptyState))))
     = [MessagesList ''from:faturaedp@edp.pt has:attachment'' None,
        MessagesList ''from:faturaedp@edp.pt has:attachment'' (Some ''A''),
        MessagesList ''from:faturaedp@edp.pt has:attachment'' (Some ''B'')]
   \<and> filter isFullGet (trace (snd (snd (scanLoop mailEnv \<lparr>Contracts = Map.empty\<rparr>
      ''from:faturaedp@edp.pt has:attachment'' 0 []
      [Inr \<lparr>Messages = [listed ''m1'', listed ''m2''], NextPageToken = ''A''\<rparr>,
       Inr \<lparr>Messages = [listed ''m3'', listed ''m4''], NextPageToken = ''B''\<rparr>,
       Inr \<lparr>Messages = [], NextPageToken = []\<rparr>,
       Inl (Error ''a fourth request'')] emptyState))))
     = [MessagesGet ''m1'' ''full'', MessagesGet ''m2'' ''full'', MessagesGet ''m3'' ''full'',
        MessagesGet ''m4'' ''full'']"
proof -
  have ok: "''A'' \<noteq> [] \<and> ''B'' \<noteq> [] \<and>
      list_all (\<lambda>m. messageOk mailEnv (MessageId m)) [listed ''m1'', listed ''m2'', listed ''m3'', listed ''m4'']"
    by (simp add: messageOk_mailEnv)
  from scanLoop_three_pages [where A = "''A''" and B = "''B''" and env = mailEnv
      and ?m1.0 = "listed ''m1''" and ?m2.0 = "listed ''m2''" and ?m3.0 = "listed ''m3''"
      and ?m4.0 = "listed ''m4''" and configuration = "\<lparr>Contracts = Map.empty\<rparr>"
      and q = "''from:faturaedp@edp.pt has:attachment''" and messageIndex = 0
      and later = "[Inl (Error ''a fourth request'')]" and st = emptyState and token = "[]"] ok
  obtain st1 where
    "scanLoop mailEnv \<lparr>Contracts = Map.empty\<rparr> ''from:faturaedp@edp.pt has:attachment'' 0 []
      [Inr \<lparr>Messages = [listed ''m1'', listed ''m2''], NextPageToken = ''A''\<rparr>,
       Inr \<lparr>Messages = [listed ''m3'', listed ''m4''], NextPageToken = ''B''\<rparr>,
       Inr \<lparr>Messages = [], NextPageToken = []\<rparr>,
       Inl (Error ''a fourth request'')] emptyState = (Return (), [Inl (Error ''a fourth request'')], st1)"
    and "filter is_MessagesList (trace st1) =
           filter is_MessagesList (trace emptyState) @
             [MessagesList ''from:faturaedp@edp.pt has:attachment'' None,
              MessagesList ''from:faturaedp@edp.pt has:attachment'' (Some ''A''),
              MessagesList ''from:faturaedp@edp.pt has:attachment'' (Some ''B'')]"
    and "filter isFullGet (trace st1) =
           filter isFullGet (trace emptyState) @
             map (\<lambda>m. MessagesGet (MessageId m) ''full'')
               [listed ''m1'', listed ''m2'', listed ''m3'', listed ''m4'']"
    by blast
  then show ?thesis by (simp add: emptyState_def listed_def)
qed

lemma processMessage_classified:
  assumes full: "getFull env (MessageId m) = Inr msg" and pl: "Payload msg = Some payload"
    and bodies: "list_all (\<lambda>part. selectedPart part \<longrightarrow> Body part \<noteq> None) (Parts payload)"
  shows "\<exists>st1. processMessage env configuration messageIndex m st =
       (Return (if isl (getRaw env (MessageId m)) then messageIndex else messageIndex + 1), st1) \<and>
     filter is_Stdout (trace st1) =
       filter is_Stdout (trace st) @
         [Stdout (progressLine messageIndex (MessageId m)
            (formatDate (localZone env) (InternalDate msg))
            (fst (scanHeaders (Headers payload) ([], [])))
            (snd (scanHeaders (Headers payload) ([], []))))]"
proof -
  define date where "date = formatDate (localZone env) (InternalDate msg)"
  define sender where "sender = fst (scanHeaders (Headers payload) ([], []))"
  define subject where "subject = snd (scanHeaders (Headers payload) ([], []))"
  define prefix where "prefix = filenamePrefix configuration date (MessageId m) subject"
  define st2 where "st2 = emit (Stdout (progressLine messageIndex (MessageId m) date sender subject))
     (emit (MessagesGet (MessageId m) ''full'') st)"
  obtain r3 st3 where pp: "processParts env (MessageId m) prefix (Parts payload) st2 = (r3, st3)"
    by (cases "processParts env (MessageId m) prefix (Parts payload) st2")
  have r3: "r3 = Return ()"
    using processParts_events [OF bodies, of env "MessageId m" prefix st2] pp by simp
  have o3: "filter is_Stdout (trace st3) =
      filter is_Stdout (trace st) @ [Stdout (progressLine messageIndex (MessageId m) date sender subject)]"
    using processParts_silent [OF silent_instances(3), of env "MessageId m" prefix "Parts payload" st2] pp
    by (simp add: st2_def emit_def)
  define st4 where "st4 = emit (MessagesGet (MessageId m) ''raw'') st3"
  have o4: "filter is_Stdout (trace st4) =
      filter is_Stdout (trace st) @ [Stdout (progressLine messageIndex (MessageId m) date sender subject)]"
    using o3 by (simp add: st4_def emit_def)
  have unfold: "processMessage env configuration messageIndex m st =
      (case getRaw env (MessageId m) of
         Inl err \<Rightarrow>
           (Return messageIndex,
            emit (LogPrintf (''Unable to retrieve raw message '' @ MessageId m @ '': '' @ errorText err)) st4)
       | Inr rawMsg \<Rightarrow>
           (case saveRawMessage env (prefix @ ''.eml'') (Raw rawMsg) st4 of
              (Some err, st5) \<Rightarrow>
                (Return (messageIndex + 1),
                 emit (LogPrintf (''Error saving message '' @ MessageId m @ '': '' @ errorText err)) st5)
            | (None, st5) \<Rightarrow> (Return (messageIndex + 1), st5)))"
    using full pl pp r3
    by (simp add: processMessage_def Let_def date_def sender_def subject_def prefix_def st2_def st4_def
        split: sum.splits prod.splits option.splits)
  show ?thesis
  proof (cases "getRaw env (MessageId m)")
    case (Inl err)
    then show ?thesis using unfold o4
      by (simp add: emit_def date_def sender_def subject_def)
  next
    case (Inr rawMsg)
    obtain e5 st5 where sv: "saveRawMessage env (prefix @ ''.eml'') (Raw rawMsg) st4 = (e5, st5)"
      by (cases "saveRawMessage env (prefix @ ''.eml'') (Raw rawMsg) st4")
    have o5: "filter is_Stdout (trace st5) =
        filter is_Stdout (trace st) @ [Stdout (progressLine messageIndex (MessageId m) date sender subject)]"
      using saveRawMessage_silent [OF silent_instances(3), of env "prefix @ ''.eml''" "Raw rawMsg" st4] sv o4
      by simp
    show ?thesis
      using unfold Inr sv o5 by (cases e5) (simp_all add: emit_def date_def sender_def subject_def)
  qed
qed

lemma decimal_0: "decimal 0 = ''0''"
  by (subst decimal.simps) (simp add: digitChar_def)

lemma fmt_08d_0: "fmt_08d 0 = ''00000000''"
  by (simp add: fmt_08d_def decimal_0 eval_nat_numeral)

lemma invoiceMessage_line:
  "progressLine 0 mId (formatDate (\<lambda>sec. 0) 1720400000000) ''faturaedp@edp.pt'' ''Fatura''
   = ''#00000000 '' @ mId @ '' 2024-07-08 faturaedp@edp.pt: Fatura'' @ [CHR 0x0A]"
  by (simp add: progressLine_def fmt_08d_0 formatDate_2024)

text \<open>
  Claim C4 on the code: when the raw retrieval of the first message fails, the
  \<^verbatim>\<open>continue\<close> of line 300 skips \<^verbatim>\<open>messageIndex++\<close>, and the progress line of the second
  message carries the index 0 again.
\<close>

theorem progress_counter_repeats:
  "filter is_Stdout (trace (snd (processMessages rawFailEnv \<lparr>Contracts = Map.empty\<rparr> 0
      [listed ''m1'', listed ''m2''] emptyState)))
   = [Stdout (''#00000000 m1 2024-07-08 faturaedp@edp.pt: Fatura'' @ [CHR 0x0A]),
      Stdout (''#00000000 m2 2024-07-08 faturaedp@edp.pt: Fatura'' @ [CHR 0x0A])]"
proof -
  let ?cfg = "\<lparr>Contracts = Map.empty\<rparr>"
  let ?payload = "MessagePart ''multipart/mixed'' []
        [(''From'', ''faturaedp@edp.pt''), (''Subject'', ''Fatura'')] None []"
  have full: "getFull rawFailEnv (MessageId (listed mId)) = Inr (invoiceMessage mId)" for mId
    by (simp add: rawFailEnv_def mailEnv_def listed_def)
  have pl: "Payload (invoiceMessage mId) = Some ?payload" for mId
    by (simp add: invoiceMessage_def)
  have bodies: "list_all (\<lambda>part. selectedPart part \<longrightarrow> Body part \<noteq> None) (Parts ?payload)"
    by simp
  have zone: "localZone rawFailEnv = (\<lambda>sec. 0)"
    by (simp add: rawFailEnv_def mailEnv_def quietEnv_def)
  have date: "InternalDate (invoiceMessage mId) = 1720400000000" for mId
    by (simp add: invoiceMessage_def)
  have raw1: "isl (getRaw rawFailEnv (MessageId (listed ''m1'')))"
    by (simp add: rawFailEnv_def listed_def)
  from processMessage_classified [OF full [of "''m1''"] pl [of "''m1''"] bodies,
      where configuration = ?cfg and messageIndex = 0 and st = emptyState]
  obtain st1 where p1: "processMessage rawFailEnv ?cfg 0 (listed ''m1'') emptyState = (Return 0, st1)"
    and o1: "filter is_Stdout (trace st1) =
      [Stdout (''#00000000 m1 2024-07-08 faturaedp@edp.pt: Fatura'' @ [CHR 0x0A])]"
    using raw1 by (auto simp: zone date invoiceMessage_line emptyState_def listed_def)
  from processMessage_classified [OF full [of "''m2''"] pl [of "''m2''"] bodies,
      where configuration = ?cfg and messageIndex = 0 and st = st1]
  obtain n2 st2 where p2: "processMessage rawFailEnv ?cfg 0 (listed ''m2'') st1 = (Return n2, st2)"
    and o2: "filter is_Stdout (trace st2) = filter is_Stdout (trace st1) @
      [Stdout (''#00000000 m2 2024-07-08 faturaedp@edp.pt: Fatura'' @ [CHR 0x0A])]"
    by (auto simp: zone date invoiceMessage_line listed_def)
  have "snd (processMessages rawFailEnv ?cfg 0 [listed ''m1'', listed ''m2''] emptyState) = st2"
    using p1 p2 by simp
  then show ?thesis using o1 o2 by simp
qed

end
